theory Spec2Isabelle
  imports Main
begin

section \<open>Values shared by the hooks\<close>

text \<open>
  A value a collaborator can throw (or reject its promise with). The handlers of
  \<^verbatim>\<open>use-api-query\<close> test \<^verbatim>\<open>error instanceof APIClientError\<close> first, then
  \<^verbatim>\<open>error instanceof Error\<close>; everything else is a value that is no \<^verbatim>\<open>Error\<close>.
  The status code is a JavaScript number; the model keeps the integers.
\<close>

datatype thrown =
    APIClientError int string
  | JsError string
  | NonError

text \<open>
  Truthiness of a \<^verbatim>\<open>string | null | undefined\<close>, as in \<^verbatim>\<open>if (cachedQueryId)\<close> and
  \<^verbatim>\<open>if (result.queryId)\<close>: null, undefined and the empty string are falsy.
\<close>

fun truthy :: "string option \<Rightarrow> bool" where
  "truthy None = False"
| "truthy (Some s) = (s \<noteq> [])"

text \<open>\<^verbatim>\<open>String.prototype.includes\<close>: the pattern occurs as a contiguous run.\<close>

fun startsWith :: "string \<Rightarrow> string \<Rightarrow> bool" where
  "startsWith s [] = True"
| "startsWith [] (p # ps) = False"
| "startsWith (c # cs) (p # ps) = (c = p \<and> startsWith cs ps)"

fun str_includes :: "string \<Rightarrow> string \<Rightarrow> bool" where
  "str_includes [] p = (p = [])"
| "str_includes (c # cs) p = (startsWith (c # cs) p \<or> str_includes cs p)"

text \<open>
  A number inside a template literal, \<^verbatim>\<open>`${error.statusCode}`\<close> and
  \<^verbatim>\<open>`query-${Date.now()}`\<close>: the decimal digits, with a minus sign below zero.
\<close>

definition digit_char :: "nat \<Rightarrow> char" where
  "digit_char d = ''0123456789'' ! d"

function show_nat :: "nat \<Rightarrow> string" where
  "show_nat n = (if n < 10 then [digit_char n] else show_nat (n div 10) @ [digit_char (n mod 10)])"
  by pat_completeness auto
termination
  by (relation "measure id") auto

declare show_nat.simps [simp del]

definition show_int :: "int \<Rightarrow> string" where
  "show_int i = (if i < 0 then CHR ''-'' # show_nat (nat (- i)) else show_nat (nat i))"

section \<open>The task tracker, as \<^verbatim>\<open>useApiQuery\<close> consumes it\<close>

text \<open>
  \<^verbatim>\<open>ContentTaskType\<close> and \<^verbatim>\<open>TaskStatus\<close> are imported from \<^verbatim>\<open>../types/api\<close>; the
  members below are the ones the hook names, completed by the spec's data model.
\<close>

datatype ContentTaskType = LESSONS | RELATED_QUESTIONS | FLASHCARDS | QUIZ

datatype TaskStatus = PENDING | IN_PROGRESS | COMPLETED | FAILED

record Task =
  status :: TaskStatus
  progressPercent :: nat
  failureReason :: "string option"

text \<open>
  The object returned by \<^verbatim>\<open>useTaskTracker()\<close> lives in
  \<^verbatim>\<open>./use-task-tracker\<close>. The workflow is verified for every tracker: its six
  operations are a parameter, acting on a tracker state \<open>'t\<close>, and every call takes
  effect before the next one reads.
\<close>

record 't tracker_ops =
  startTracking :: "string \<Rightarrow> 't \<Rightarrow> 't"
  updateTaskProgress :: "ContentTaskType \<Rightarrow> nat \<Rightarrow> 't \<Rightarrow> 't"
  markTaskCompleted :: "ContentTaskType \<Rightarrow> 't \<Rightarrow> 't"
  markTaskFailed :: "ContentTaskType \<Rightarrow> string \<Rightarrow> 't \<Rightarrow> 't"
  getTaskByType :: "'t \<Rightarrow> ContentTaskType \<Rightarrow> Task option"
  reset :: "'t \<Rightarrow> 't"

text \<open>
  Modelled from the spec: the task tracker of \<^verbatim>\<open>./use-task-tracker\<close>, a mapping
  from content task type to a task record, "created on startTracking, mutated by
  progress/completion/failure calls, discarded on reset". It instantiates the
  parameter at concrete inputs.
\<close>

definition spec_update :: "ContentTaskType \<Rightarrow> (Task \<Rightarrow> Task) \<Rightarrow>
    (ContentTaskType \<rightharpoonup> Task) \<Rightarrow> (ContentTaskType \<rightharpoonup> Task)" where
  "spec_update ty f m = (case m ty of None \<Rightarrow> m | Some t \<Rightarrow> m(ty \<mapsto> f t))"

definition spec_tracker :: "(ContentTaskType \<rightharpoonup> Task) tracker_ops" where
  "spec_tracker = \<lparr>
     startTracking = (\<lambda>sessionId m ty.
        Some \<lparr>status = PENDING, progressPercent = 0, failureReason = None\<rparr>),
     updateTaskProgress = (\<lambda>ty p. spec_update ty (\<lambda>t. t\<lparr>progressPercent := p\<rparr>)),
     markTaskCompleted = (\<lambda>ty. spec_update ty (\<lambda>t. t\<lparr>status := COMPLETED\<rparr>)),
     markTaskFailed = (\<lambda>ty reason.
        spec_update ty (\<lambda>t. t\<lparr>status := FAILED, failureReason := Some reason\<rparr>)),
     getTaskByType = (\<lambda>m ty. m ty),
     reset = (\<lambda>m. Map.empty) \<rparr>"

section \<open>\<^verbatim>\<open>useApiQuery\<close>: the query workflow\<close>

record 'c QueryState =
  loading :: bool
  error :: "string option"
  queryId :: "string option"
  lessons :: "'c option"
  relatedQuestions :: "'c option"
  progress :: "string option"

record QueryRequest =
  req_query :: string
  req_user_id :: "string option"

text \<open>
  What \<^verbatim>\<open>submitQueryAndWait\<close> resolves with. \<open>'c\<close> is \<^verbatim>\<open>ContentResponse\<close>, an
  object and so always truthy; an absent field is \<open>None\<close>.
\<close>

record 'c SubmitResult =
  res_queryId :: "string option"
  res_lessons :: "'c option"
  res_relatedQuestions :: "'c option"

text \<open>
  The collaborators of one run of \<^verbatim>\<open>submitQuery\<close>: \<^verbatim>\<open>offlineManager\<close>,
  \<^verbatim>\<open>APIClient\<close> and the clock. The hook calls each of them at most once with
  given arguments, so each is the function from the arguments of the call to its
  outcome: \<open>Inl\<close> a thrown value, \<open>Inr\<close> the value the promise resolves with
  (\<open>Some\<close> a thrown value or \<open>None\<close> for a promise of nothing).
  \<^verbatim>\<open>submitQueryAndWait\<close> also yields the texts it passes to its progress callback,
  in order, before it settles.
\<close>

record 'c collaborators =
  getCachedQueryId :: "string \<Rightarrow> thrown + string option"
  saveQueryMapping :: "string \<Rightarrow> string \<Rightarrow> thrown option"
  getLessons :: "string \<Rightarrow> thrown + 'c"
  getRelatedQuestions :: "string \<Rightarrow> thrown + 'c"
  healthCheck :: "thrown option"
  submitQueryAndWait :: "QueryRequest \<Rightarrow> string list \<times> (thrown + 'c SubmitResult)"
  date_now :: nat

text \<open>Every call the hook makes on a collaborator or on the tracker, in order.\<close>

datatype call =
    CallGetCachedQueryId string
  | CallGetLessons string
  | CallGetRelatedQuestions string
  | CallHealthCheck
  | CallSubmitQueryAndWait QueryRequest
  | CallSaveQueryMapping string string
  | CallStartTracking string
  | CallUpdateTaskProgress ContentTaskType nat
  | CallMarkTaskCompleted ContentTaskType
  | CallMarkTaskFailed ContentTaskType string
  | CallGetTaskByType ContentTaskType
  | CallReset

text \<open>The callbacks handed to \<^verbatim>\<open>setTimeout\<close>, outermost first.\<close>

datatype timer_stage = Flashcards80 | FlashcardsDone | Quiz70 | QuizDone

text \<open>
  What the hook can change: its \<^verbatim>\<open>QueryState\<close>, the tracker, the calls made so
  far, and the timers scheduled and not yet fired (delay in milliseconds).
\<close>

record ('c, 't) world =
  state :: "'c QueryState"
  tracker :: 't
  calls :: "call list"
  timers :: "(nat \<times> timer_stage) list"

definition initialState :: "'c QueryState" where
  "initialState = \<lparr>loading = False, error = None, queryId = None, lessons = None,
     relatedQuestions = None, progress = None\<rparr>"

definition setProgress :: "string \<Rightarrow> ('c, 't) world \<Rightarrow> ('c, 't) world" where
  "setProgress p w = w\<lparr>state := (state w)\<lparr>progress := Some p\<rparr>\<rparr>"

definition logCall :: "call \<Rightarrow> ('c, 't) world \<Rightarrow> ('c, 't) world" where
  "logCall c w = w\<lparr>calls := calls w @ [c]\<rparr>"

definition call_startTracking :: "'t tracker_ops \<Rightarrow> string \<Rightarrow> ('c, 't) world \<Rightarrow> ('c, 't) world" where
  "call_startTracking ops sessionId w =
     logCall (CallStartTracking sessionId) (w\<lparr>tracker := startTracking ops sessionId (tracker w)\<rparr>)"

definition call_updateTaskProgress ::
    "'t tracker_ops \<Rightarrow> ContentTaskType \<Rightarrow> nat \<Rightarrow> ('c, 't) world \<Rightarrow> ('c, 't) world" where
  "call_updateTaskProgress ops ty p w =
     logCall (CallUpdateTaskProgress ty p) (w\<lparr>tracker := updateTaskProgress ops ty p (tracker w)\<rparr>)"

definition call_markTaskCompleted ::
    "'t tracker_ops \<Rightarrow> ContentTaskType \<Rightarrow> ('c, 't) world \<Rightarrow> ('c, 't) world" where
  "call_markTaskCompleted ops ty w =
     logCall (CallMarkTaskCompleted ty) (w\<lparr>tracker := markTaskCompleted ops ty (tracker w)\<rparr>)"

definition call_markTaskFailed ::
    "'t tracker_ops \<Rightarrow> ContentTaskType \<Rightarrow> string \<Rightarrow> ('c, 't) world \<Rightarrow> ('c, 't) world" where
  "call_markTaskFailed ops ty reason w =
     logCall (CallMarkTaskFailed ty reason) (w\<lparr>tracker := markTaskFailed ops ty reason (tracker w)\<rparr>)"

definition call_reset :: "'t tracker_ops \<Rightarrow> ('c, 't) world \<Rightarrow> ('c, 't) world" where
  "call_reset ops w = logCall CallReset (w\<lparr>tracker := reset ops (tracker w)\<rparr>)"

text \<open>\<^verbatim>\<open>task?.status === s\<close> on the result of \<^verbatim>\<open>getTaskByType\<close>.\<close>

definition statusIs :: "Task option \<Rightarrow> TaskStatus \<Rightarrow> bool" where
  "statusIs t s = (case t of None \<Rightarrow> False | Some r \<Rightarrow> status r = s)"

subsection \<open>The progress callback (lines 116 to 151)\<close>

definition bumpFlashcardsIfLessonsDone :: "'t tracker_ops \<Rightarrow> ('c, 't) world \<Rightarrow> ('c, 't) world" where
  "bumpFlashcardsIfLessonsDone ops w =
     (let w1 = logCall (CallGetTaskByType LESSONS) w;
          lessonsTask = getTaskByType ops (tracker w1) LESSONS
      in if statusIs lessonsTask COMPLETED
         then call_updateTaskProgress ops FLASHCARDS 30 w1
         else w1)"

definition onProgress :: "'t tracker_ops \<Rightarrow> ('c, 't) world \<Rightarrow> string \<Rightarrow> ('c, 't) world" where
  "onProgress ops w msg =
     (let w1 = setProgress msg w
      in if str_includes msg ''submitted'' then
           call_updateTaskProgress ops RELATED_QUESTIONS 10
             (call_updateTaskProgress ops LESSONS 20 w1)
         else if str_includes msg ''Lessons ready'' then
           call_updateTaskProgress ops FLASHCARDS 10
             (call_updateTaskProgress ops RELATED_QUESTIONS 50
               (call_markTaskCompleted ops LESSONS w1))
         else if str_includes msg ''Related questions ready'' then
           bumpFlashcardsIfLessonsDone ops (call_markTaskCompleted ops RELATED_QUESTIONS w1)
         else if str_includes msg ''may take longer'' then
           bumpFlashcardsIfLessonsDone ops
             (call_markTaskFailed ops RELATED_QUESTIONS
                ''Related questions are taking longer than expected'' w1)
         else w1)"

subsection \<open>The simulated flashcards and quiz stages (lines 170 to 187)\<close>

text \<open>
  \<^verbatim>\<open>setTimeout\<close> only records the callback: it fires after its delay, which the model
  places after \<^verbatim>\<open>submitQuery\<close> has settled. \<open>fireTimer\<close> is what each callback does
  when it fires.
\<close>

definition setTimeout :: "timer_stage \<Rightarrow> nat \<Rightarrow> ('c, 't) world \<Rightarrow> ('c, 't) world" where
  "setTimeout stage delay w = w\<lparr>timers := timers w @ [(delay, stage)]\<rparr>"

fun fireTimer :: "'t tracker_ops \<Rightarrow> timer_stage \<Rightarrow> ('c, 't) world \<Rightarrow> ('c, 't) world" where
  "fireTimer ops Flashcards80 w =
     setTimeout FlashcardsDone 2000 (call_updateTaskProgress ops FLASHCARDS 80 w)"
| "fireTimer ops FlashcardsDone w =
     setTimeout Quiz70 1000
       (call_updateTaskProgress ops QUIZ 30 (call_markTaskCompleted ops FLASHCARDS w))"
| "fireTimer ops Quiz70 w =
     setTimeout QuizDone 1500 (call_updateTaskProgress ops QUIZ 70 w)"
| "fireTimer ops QuizDone w = call_markTaskCompleted ops QUIZ w"

subsection \<open>The cached path (lines 48 to 81)\<close>

text \<open>
  \<^verbatim>\<open>Promise.allSettled\<close> starts both fetches and never rejects; a rejected fetch
  yields null. The flag says whether the function returned (line 75) or fell
  through to the fresh submission.
\<close>

definition settledValue :: "thrown + 'c \<Rightarrow> 'c option" where
  "settledValue r = (case r of Inl e \<Rightarrow> None | Inr v \<Rightarrow> Some v)"

definition loadCached ::
    "'c collaborators \<Rightarrow> string \<Rightarrow> ('c, 't) world \<Rightarrow> bool \<times> ('c, 't) world" where
  "loadCached env cachedQueryId w =
     (let w1 = setProgress ''Found cached query, loading content...'' w;
          w2 = logCall (CallGetRelatedQuestions cachedQueryId)
                 (logCall (CallGetLessons cachedQueryId) w1);
          lessonsResult = settledValue (getLessons env cachedQueryId);
          relatedQuestionsResult = settledValue (getRelatedQuestions env cachedQueryId)
      in case lessonsResult of
           Some l \<Rightarrow>
             (True, w2\<lparr>state := (state w2)\<lparr>
                loading := False,
                queryId := Some cachedQueryId,
                lessons := Some l,
                relatedQuestions := relatedQuestionsResult,
                progress := Some ''Cached content loaded!''\<rparr>\<rparr>)
         | None \<Rightarrow> (False, w2))"

subsection \<open>After the submission resolves (lines 155 to 203)\<close>

definition reconcileRelatedQuestions ::
    "'t tracker_ops \<Rightarrow> 'c SubmitResult \<Rightarrow> ('c, 't) world \<Rightarrow> ('c, 't) world" where
  "reconcileRelatedQuestions ops result w =
     (if res_lessons result \<noteq> None \<and> res_relatedQuestions result = None then
        (let w1 = logCall (CallGetTaskByType RELATED_QUESTIONS) w;
             relatedQuestionsTask = getTaskByType ops (tracker w1) RELATED_QUESTIONS
         in if \<not> statusIs relatedQuestionsTask COMPLETED \<and> \<not> statusIs relatedQuestionsTask FAILED
            then call_markTaskFailed ops RELATED_QUESTIONS
                   ''Related questions could not be generated'' w1
            else w1)
      else w)"

definition startFlashcards ::
    "'t tracker_ops \<Rightarrow> 'c SubmitResult \<Rightarrow> ('c, 't) world \<Rightarrow> ('c, 't) world" where
  "startFlashcards ops result w =
     (if res_lessons result \<noteq> None
      then setTimeout Flashcards80 1000 (call_updateTaskProgress ops FLASHCARDS 50 w)
      else w)"

definition commitResult :: "'c SubmitResult \<Rightarrow> ('c, 't) world \<Rightarrow> ('c, 't) world" where
  "commitResult result w = w\<lparr>state := (state w)\<lparr>
     loading := False,
     queryId := res_queryId result,
     lessons := res_lessons result,
     relatedQuestions := res_relatedQuestions result,
     progress := Some ''Query completed!''\<rparr>\<rparr>"

text \<open>
  The body of a \<^verbatim>\<open>try\<close> either completes (\<open>Inr\<close>) or throws (\<open>Inl\<close>) a value, in
  the world reached when it was thrown.
\<close>

definition afterSubmission :: "'t tracker_ops \<Rightarrow> 'c collaborators \<Rightarrow> string \<Rightarrow>
    'c SubmitResult \<Rightarrow> ('c, 't) world \<Rightarrow> thrown \<times> ('c, 't) world + ('c, 't) world" where
  "afterSubmission ops env q result w =
     (let w1 = startFlashcards ops result (reconcileRelatedQuestions ops result w)
      in case res_queryId result of
           None \<Rightarrow> Inr (commitResult result w1)
         | Some qid \<Rightarrow>
             if qid = [] then Inr (commitResult result w1)
             else (let w2 = logCall (CallSaveQueryMapping q qid) w1
                   in case saveQueryMapping env q qid of
                        Some e \<Rightarrow> Inl (e, w2)
                      | None \<Rightarrow> Inr (commitResult result w2)))"

subsection \<open>The fresh submission (lines 83 to 151)\<close>

definition prepareSubmission :: "'t tracker_ops \<Rightarrow> 'c collaborators \<Rightarrow> string \<Rightarrow>
    string option \<Rightarrow> ('c, 't) world \<Rightarrow> ('c, 't) world" where
  "prepareSubmission ops env q userId w =
     (let w1 = logCall CallHealthCheck (setProgress ''Checking backend connection...'' w);
          w2 = (case healthCheck env of
                  Some healthError \<Rightarrow>
                    setProgress ''Backend connection failed. Is the server running?'' w1
                | None \<Rightarrow> w1);
          request = \<lparr>req_query = q, req_user_id = userId\<rparr>;
          w3 = setProgress ''Submitting new query to backend...'' w2;
          w4 = call_startTracking ops (''query-'' @ show_nat (date_now env)) w3
      in logCall (CallSubmitQueryAndWait request) w4)"

text \<open>
  \<^verbatim>\<open>submitQueryAndWait\<close> runs the callback on each text, then settles: a
  rejection is thrown at the \<^verbatim>\<open>await\<close>, a result goes on to line 155.
\<close>

definition freshSubmission :: "'t tracker_ops \<Rightarrow> 'c collaborators \<Rightarrow> string \<Rightarrow>
    string option \<Rightarrow> ('c, 't) world \<Rightarrow> thrown \<times> ('c, 't) world + ('c, 't) world" where
  "freshSubmission ops env q userId w =
     (case submitQueryAndWait env \<lparr>req_query = q, req_user_id = userId\<rparr> of
        (msgs, outcome) \<Rightarrow>
          (let w6 = foldl (onProgress ops) (prepareSubmission ops env q userId w) msgs
           in case outcome of
                Inl e \<Rightarrow> Inl (e, w6)
              | Inr result \<Rightarrow> afterSubmission ops env q result w6))"

subsection \<open>\<^verbatim>\<open>submitQuery\<close> (lines 36 to 230)\<close>

text \<open>
  Lines 46 to 81: the cache probe, which is inside the outer \<^verbatim>\<open>try\<close> only, and
  the cached path. It throws, returns from \<^verbatim>\<open>submitQuery\<close> (\<open>True\<close>) or falls
  through to line 83 (\<open>False\<close>).
\<close>

definition cacheStage :: "'c collaborators \<Rightarrow> string \<Rightarrow> ('c, 't) world \<Rightarrow>
    thrown \<times> ('c, 't) world + bool \<times> ('c, 't) world" where
  "cacheStage env q w =
     (let w1 = logCall (CallGetCachedQueryId q) w
      in case getCachedQueryId env q of
           Inl e \<Rightarrow> Inl (e, w1)
         | Inr cachedQueryId \<Rightarrow>
             Inr (if truthy cachedQueryId
                  then (case cachedQueryId of
                          Some cid \<Rightarrow> loadCached env cid w1
                        | None \<Rightarrow> (False, w1))
                  else (False, w1)))"

definition submitQuery_try :: "'t tracker_ops \<Rightarrow> 'c collaborators \<Rightarrow> string \<Rightarrow>
    string option \<Rightarrow> ('c, 't) world \<Rightarrow> thrown \<times> ('c, 't) world + ('c, 't) world" where
  "submitQuery_try ops env q userId w =
     (case cacheStage env q w of
        Inl thrownAt \<Rightarrow> Inl thrownAt
      | Inr (True, w2) \<Rightarrow> Inr w2
      | Inr (False, w2) \<Rightarrow> freshSubmission ops env q userId w2)"

definition errorMessage :: "thrown \<Rightarrow> string" where
  "errorMessage e =
     (case e of
        APIClientError statusCode message \<Rightarrow>
          if statusCode = 0
          then ''Connection failed: '' @ message @
               ''. Is the backend server running on the correct port?''
          else ''Backend error ('' @ show_int statusCode @ ''): '' @ message
      | JsError message \<Rightarrow> message
      | NonError \<Rightarrow> ''An unexpected error occurred'')"

definition submitQuery_catch ::
    "'t tracker_ops \<Rightarrow> thrown \<Rightarrow> ('c, 't) world \<Rightarrow> ('c, 't) world" where
  "submitQuery_catch ops e w =
     call_reset ops (w\<lparr>state := (state w)\<lparr>
       loading := False,
       error := Some (errorMessage e),
       progress := None\<rparr>\<rparr>)"

definition beginSubmit :: "('c, 't) world \<Rightarrow> ('c, 't) world" where
  "beginSubmit w = w\<lparr>state := (state w)\<lparr>
     loading := True,
     error := None,
     progress := Some ''Checking for cached query...''\<rparr>\<rparr>"

definition submitQuery :: "'t tracker_ops \<Rightarrow> 'c collaborators \<Rightarrow> string \<Rightarrow>
    string option \<Rightarrow> ('c, 't) world \<Rightarrow> ('c, 't) world" where
  "submitQuery ops env q userId w =
     (case submitQuery_try ops env q userId (beginSubmit w) of
        Inr w' \<Rightarrow> w'
      | Inl (e, w') \<Rightarrow> submitQuery_catch ops e w')"

text \<open>Which calls are operations of the task tracker.\<close>

fun isTrackerCall :: "call \<Rightarrow> bool" where
  "isTrackerCall (CallStartTracking sessionId) = True"
| "isTrackerCall (CallUpdateTaskProgress ty p) = True"
| "isTrackerCall (CallMarkTaskCompleted ty) = True"
| "isTrackerCall (CallMarkTaskFailed ty reason) = True"
| "isTrackerCall (CallGetTaskByType ty) = True"
| "isTrackerCall CallReset = True"
| "isTrackerCall c = False"

text \<open>The calls made between an earlier world and a later one.\<close>

definition callsSince :: "('c, 't) world \<Rightarrow> ('c, 't) world \<Rightarrow> call list" where
  "callsSince w w' = drop (length (calls w)) (calls w')"

subsection \<open>Concrete runs\<close>

text \<open>
  A fresh hook with the spec's tracker, and collaborators for the spec's scenario:
  no cache entry, a healthy backend, a submission that reports two texts and
  resolves with lessons and no related questions. Payloads are strings here.
\<close>

definition world0 :: "(string, ContentTaskType \<rightharpoonup> Task) world" where
  "world0 = \<lparr>state = initialState, tracker = Map.empty, calls = [], timers = []\<rparr>"

definition env0 :: "string collaborators" where
  "env0 = \<lparr>
     getCachedQueryId = (\<lambda>q. Inr None),
     saveQueryMapping = (\<lambda>q qid. None),
     getLessons = (\<lambda>qid. Inr ''lessons payload''),
     getRelatedQuestions = (\<lambda>qid. Inl (APIClientError 404 ''Not found'')),
     healthCheck = None,
     submitQueryAndWait = (\<lambda>request.
        ([''Query submitted'', ''Lessons ready''],
         Inr \<lparr>res_queryId = Some ''q1'', res_lessons = Some ''lessons payload'',
              res_relatedQuestions = None\<rparr>)),
     date_now = 1700000000000 \<rparr>"

definition world_tracking :: "(string, ContentTaskType \<rightharpoonup> Task) world" where
  "world_tracking = world0\<lparr>tracker := startTracking spec_tracker ''query-1700000000000'' Map.empty\<rparr>"

definition env_cached :: "string collaborators" where
  "env_cached = env0\<lparr>getCachedQueryId := (\<lambda>q. Inr (Some ''q7''))\<rparr>"

definition env_probe_throws :: "string collaborators" where
  "env_probe_throws =
     env0\<lparr>getCachedQueryId := (\<lambda>q. Inl (JsError ''IndexedDB is not available''))\<rparr>"

definition env_save_fails :: "string collaborators" where
  "env_save_fails = env0\<lparr>saveQueryMapping := (\<lambda>q qid. Some (JsError ''QuotaExceededError''))\<rparr>"

definition env_refused :: "string collaborators" where
  "env_refused = env0\<lparr>submitQueryAndWait :=
     (\<lambda>request. ([], Inl (APIClientError 0 ''ECONNREFUSED'')))\<rparr>"

text \<open>
  Two states of a \<^verbatim>\<open>QueryState\<close> agree on everything but \<^verbatim>\<open>progress\<close>.
\<close>

definition keptButProgress :: "'c QueryState \<Rightarrow> 'c QueryState \<Rightarrow> bool" where
  "keptButProgress s s' = (loading s' = loading s \<and> error s' = error s \<and>
     queryId s' = queryId s \<and> lessons s' = lessons s \<and>
     relatedQuestions s' = relatedQuestions s)"

section \<open>\<^verbatim>\<open>useQueryContent\<close>: flashcards and quiz by query id\<close>

text \<open>
  The hook holds two cells, \<^verbatim>\<open>loading\<close> and \<^verbatim>\<open>error\<close>. A call is the list of what
  it does, in order (writes to the cells and the one call on \<^verbatim>\<open>APIClient\<close>),
  and the value its promise resolves with; null is \<open>None\<close>.
\<close>

record ContentHookState =
  content_loading :: bool
  content_error :: "string option"

datatype content_event =
    SetLoading bool
  | SetError "string option"
  | ApiGetFlashcards string
  | ApiGetFlashcardsByLesson string int
  | ApiGetQuiz string int

record 'c content_api =
  api_getFlashcards :: "string \<Rightarrow> thrown + 'c"
  api_getFlashcardsByLesson :: "string \<Rightarrow> int \<Rightarrow> thrown + 'c"
  api_getQuiz :: "string \<Rightarrow> int \<Rightarrow> thrown + 'c"

fun applyEvent :: "ContentHookState \<Rightarrow> content_event \<Rightarrow> ContentHookState" where
  "applyEvent s (SetLoading b) = s\<lparr>content_loading := b\<rparr>"
| "applyEvent s (SetError m) = s\<lparr>content_error := m\<rparr>"
| "applyEvent s apiCall = s"

definition applyEvents :: "ContentHookState \<Rightarrow> content_event list \<Rightarrow> ContentHookState" where
  "applyEvents s evs = foldl applyEvent s evs"

definition getFlashcards ::
    "'c content_api \<Rightarrow> string \<Rightarrow> int option \<Rightarrow> content_event list \<times> 'c option" where
  "getFlashcards api qid lessonIndex =
     (let entry = [SetLoading True, SetError None];
          (apiCall, outcome) =
            (case lessonIndex of
               Some i \<Rightarrow> (ApiGetFlashcardsByLesson qid i, api_getFlashcardsByLesson api qid i)
             | None \<Rightarrow> (ApiGetFlashcards qid, api_getFlashcards api qid))
      in case outcome of
           Inr flashcards \<Rightarrow> (entry @ [apiCall, SetLoading False], Some flashcards)
         | Inl e \<Rightarrow>
             (let msg = (case e of
                           APIClientError statusCode message \<Rightarrow> message
                         | JsError message \<Rightarrow> message
                         | NonError \<Rightarrow> ''Failed to get flashcards'')
              in (entry @ [apiCall, SetError (Some msg), SetLoading False], None)))"

text \<open>\<^verbatim>\<open>lessonIndex: number = 0\<close>: an omitted (undefined) index is 0.\<close>

definition getQuiz ::
    "'c content_api \<Rightarrow> string \<Rightarrow> int option \<Rightarrow> content_event list \<times> 'c option" where
  "getQuiz api qid lessonIndexArg =
     (let lessonIndex = (case lessonIndexArg of None \<Rightarrow> 0 | Some i \<Rightarrow> i);
          entry = [SetLoading True, SetError None];
          apiCall = ApiGetQuiz qid lessonIndex
      in case api_getQuiz api qid lessonIndex of
           Inr quiz \<Rightarrow> (entry @ [apiCall, SetLoading False], Some quiz)
         | Inl e \<Rightarrow>
             (let msg = (case e of
                           APIClientError statusCode message \<Rightarrow> message
                         | JsError message \<Rightarrow> message
                         | NonError \<Rightarrow> ''Failed to get quiz'')
              in (entry @ [apiCall, SetError (Some msg), SetLoading False], None)))"

definition api0 :: "string content_api" where
  "api0 = \<lparr>
     api_getFlashcards = (\<lambda>qid. Inr ''all flashcards''),
     api_getFlashcardsByLesson = (\<lambda>qid i. Inl (APIClientError 404 ''No such lesson'')),
     api_getQuiz = (\<lambda>qid i. if i = 0 then Inr ''quiz of lesson 0'' else Inl NonError) \<rparr>"

definition api_fails :: "string content_api" where
  "api_fails = api0\<lparr>api_getFlashcards := (\<lambda>qid. Inl NonError),
     api_getQuiz := (\<lambda>qid i. Inl (JsError ''Network request failed''))\<rparr>"

definition hook0 :: ContentHookState where
  "hook0 = \<lparr>content_loading = False, content_error = Some ''an earlier failure''\<rparr>"

section \<open>\<^verbatim>\<open>AppShell\<close>: showing the explanation view\<close>

datatype AppState = Home | Explanation | Flashcards | Quiz | Explore | Library | Lessons

record ('e, 'f) shell =
  currentState :: AppState
  currentTopic :: string
  currentExplanation :: "'e option"
  currentFlashcards :: "'f list"
  currentStepIndex :: int
  isUserQuery :: bool

text \<open>
  Modelled from the spec: an entry of \<^verbatim>\<open>lessonProgressList\<close>, whose type is declared
  in \<^verbatim>\<open>../hooks/use-lesson-progress\<close>: "topic, queryId, createdAt, lastStepIndex".
  The handlers read the first three; \<open>lp_createdAt\<close> is
  \<^verbatim>\<open>new Date(createdAt).getTime()\<close>, the milliseconds of a valid date.
\<close>

record LessonProgress =
  lp_topic :: string
  lp_queryId :: string
  lp_createdAt :: int

text \<open>
  \<^verbatim>\<open>handleStartExploration\<close> (lines 22 to 39). \<^verbatim>\<open>getLastAccessedLesson\<close> comes from
  \<^verbatim>\<open>useLessonProgress\<close> and is a parameter; when its promise rejects, the handler
  stops after \<^verbatim>\<open>setCurrentTopic\<close>. \<^verbatim>\<open>fromLessonContinue\<close> defaults to false.
\<close>

definition handleStartExploration :: "(string \<Rightarrow> thrown + int) \<Rightarrow> LessonProgress list \<Rightarrow>
    string \<Rightarrow> string option \<Rightarrow> bool option \<Rightarrow> ('e, 'f) shell \<Rightarrow>
    thrown \<times> ('e, 'f) shell + ('e, 'f) shell" where
  "handleStartExploration getLastAccessedLesson lessonProgressList topic category
       fromLessonContinueArg s =
     (let fromLessonContinue = (case fromLessonContinueArg of None \<Rightarrow> False | Some b \<Rightarrow> b);
          s1 = s\<lparr>currentTopic := topic\<rparr>
      in case find (\<lambda>lesson. lp_topic lesson = topic) lessonProgressList of
           Some existingLesson \<Rightarrow>
             (case getLastAccessedLesson (lp_queryId existingLesson) of
                Inl e \<Rightarrow> Inl (e, s1)
              | Inr lastAccessedLesson \<Rightarrow>
                  Inr (s1\<lparr>currentStepIndex := lastAccessedLesson, isUserQuery := True,
                          currentState := Explanation\<rparr>))
         | None \<Rightarrow>
             Inr (s1\<lparr>currentStepIndex := 0, isUserQuery := (\<not> fromLessonContinue),
                     currentState := Explanation\<rparr>))"

text \<open>
  \<^verbatim>\<open>handleShowExplanation\<close> (lines 61 to 83). \<^verbatim>\<open>Array.prototype.sort\<close> is stable
  and sorts in place, so \<^verbatim>\<open>handleStartExploration\<close> searches the sorted list; the
  comparator \<^verbatim>\<open>b - a\<close> on the times puts the latest first. Reading \<^verbatim>\<open>.topic\<close> of
  the first element of an empty array would be a \<^verbatim>\<open>TypeError\<close>.
\<close>

definition handleShowExplanation :: "(string \<Rightarrow> thrown + int) \<Rightarrow> LessonProgress list \<Rightarrow>
    ('e, 'f) shell \<Rightarrow> thrown \<times> ('e, 'f) shell + ('e, 'f) shell" where
  "handleShowExplanation getLastAccessedLesson lessonProgressList s =
     (if currentTopic s \<noteq> [] then Inr (s\<lparr>currentState := Explanation\<rparr>)
      else if length lessonProgressList > 0 then
        (let sorted_list = sort_key (\<lambda>lesson. - lp_createdAt lesson) lessonProgressList
         in case sorted_list of
              mostRecentLesson # others \<Rightarrow>
                handleStartExploration getLastAccessedLesson sorted_list
                  (lp_topic mostRecentLesson) None (Some True) s
            | [] \<Rightarrow> Inl (JsError ''TypeError'', s))
      else Inr (s\<lparr>currentState := Home\<rparr>))"

definition shell0 :: "(string, string) shell" where
  "shell0 = \<lparr>currentState = Home, currentTopic = [], currentExplanation = None,
     currentFlashcards = [], currentStepIndex = 0, isUserQuery = True\<rparr>"

definition lessons0 :: "LessonProgress list" where
  "lessons0 = [
     \<lparr>lp_topic = ''volcanoes'', lp_queryId = ''q1'', lp_createdAt = 1700000000000\<rparr>,
     \<lparr>lp_topic = ''photosynthesis'', lp_queryId = ''q2'', lp_createdAt = 1700000500000\<rparr>,
     \<lparr>lp_topic = ''tides'', lp_queryId = ''q3'', lp_createdAt = 1700000200000\<rparr>]"

definition lastAccessed0 :: "string \<Rightarrow> thrown + int" where
  "lastAccessed0 qid = (if qid = ''q2'' then Inr 3 else Inr 0)"

section \<open>Properties of the query workflow\<close>

lemmas call_defs = logCall_def call_startTracking_def call_updateTaskProgress_def
  call_markTaskCompleted_def call_markTaskFailed_def call_reset_def

lemmas run_defs = submitQuery_def submitQuery_try_def cacheStage_def loadCached_def
  beginSubmit_def settledValue_def setProgress_def callsSince_def Let_def
  freshSubmission_def prepareSubmission_def afterSubmission_def commitResult_def
  startFlashcards_def reconcileRelatedQuestions_def onProgress_def
  bumpFlashcardsIfLessonsDone_def statusIs_def setTimeout_def submitQuery_catch_def
  call_defs

lemmas input_defs = env0_def world0_def world_tracking_def initialState_def spec_tracker_def
  spec_update_def env_cached_def env_probe_throws_def env_save_fails_def
  env_refused_def

lemma keptButProgress_refl: "keptButProgress s s"
  by (simp add: keptButProgress_def)

lemma keptButProgress_trans:
  "keptButProgress s s' \<Longrightarrow> keptButProgress s' s'' \<Longrightarrow> keptButProgress s s''"
  by (simp add: keptButProgress_def)

lemma content_commit:
  fixes s s' :: "'c QueryState"
  shows "queryId s' = queryId s \<Longrightarrow> lessons s' = lessons s \<Longrightarrow>
   relatedQuestions s' = relatedQuestions s \<Longrightarrow>
     s'\<lparr>loading := b, error := m, progress := p\<rparr> = s\<lparr>loading := b, error := m, progress := p\<rparr>"
  by (cases s, cases s') simp

lemma onProgress_state: "state (onProgress ops w msg) = (state w)\<lparr>progress := Some msg\<rparr>"
  by (simp add: onProgress_def bumpFlashcardsIfLessonsDone_def setProgress_def call_defs Let_def)

lemma foldl_onProgress_kept:
  "keptButProgress (state w) (state (foldl (onProgress ops) w msgs))"
proof (induction msgs arbitrary: w)
  case Nil
  show ?case by (simp add: keptButProgress_refl)
next
  case (Cons m ms)
  have "keptButProgress (state (onProgress ops w m)) (state (foldl (onProgress ops) (onProgress ops w m) ms))"
    by (rule Cons.IH)
  then show ?case by (simp add: onProgress_state keptButProgress_def)
qed

lemma prepareSubmission_state:
  "state (prepareSubmission ops env q userId w) =
     (state w)\<lparr>progress := Some ''Submitting new query to backend...''\<rparr>"
  by (simp add: prepareSubmission_def setProgress_def call_defs Let_def split: option.splits)

lemma resolved_world_kept:
  "keptButProgress (state w)
     (state (foldl (onProgress ops) (prepareSubmission ops env q userId w) msgs))"
  using foldl_onProgress_kept [of "prepareSubmission ops env q userId w" ops msgs]
  by (simp add: prepareSubmission_state keptButProgress_def)

lemma cacheStage_throws:
  "cacheStage env q w = Inl (e, w1) \<Longrightarrow>
     getCachedQueryId env q = Inl e \<and> w1 = logCall (CallGetCachedQueryId q) w"
  by (auto simp: cacheStage_def Let_def split: sum.splits)

lemma cacheStage_falls_through:
  "cacheStage env q w = Inr (False, w2) \<Longrightarrow>
     keptButProgress (state w) (state w2) \<and> tracker w2 = tracker w \<and> timers w2 = timers w"
  by (auto simp: cacheStage_def loadCached_def setProgress_def logCall_def Let_def keptButProgress_def
      split: sum.splits option.splits if_splits)

lemma cacheStage_hit:
  assumes "getCachedQueryId env q = Inr (Some cid)" "cid \<noteq> []" "getLessons env cid = Inr l"
  shows "cacheStage env q w = Inr (True, w\<lparr>
           state := (state w)\<lparr>loading := False, queryId := Some cid, lessons := Some l,
              relatedQuestions := settledValue (getRelatedQuestions env cid),
              progress := Some ''Cached content loaded!''\<rparr>,
           calls := calls w @ [CallGetCachedQueryId q, CallGetLessons cid,
              CallGetRelatedQuestions cid]\<rparr>)"
  using assms
  by (simp add: cacheStage_def loadCached_def settledValue_def setProgress_def logCall_def Let_def)

lemma cacheStage_returned:
  assumes "cacheStage env q w = Inr (True, w2)"
  shows "\<exists>cid l. getCachedQueryId env q = Inr (Some cid) \<and> cid \<noteq> [] \<and> getLessons env cid = Inr l"
proof (cases "getCachedQueryId env q")
  case (Inl e)
  with assms show ?thesis by (simp add: cacheStage_def Let_def)
next
  case (Inr cached)
  show ?thesis
  proof (cases cached)
    case None
    with Inr assms show ?thesis by (simp add: cacheStage_def Let_def)
  next
    case (Some cid)
    with Inr assms have ne: "cid \<noteq> []" and
      lc: "fst (loadCached env cid (logCall (CallGetCachedQueryId q) w))"
      by (auto simp: cacheStage_def Let_def split: if_splits)
    from lc obtain l where "getLessons env cid = Inr l"
      by (cases "getLessons env cid") (simp_all add: loadCached_def settledValue_def Let_def)
    with Inr Some ne show ?thesis by simp
  qed
qed

lemma afterSubmission_throws:
  "afterSubmission ops env q result w = Inl (e, w1) \<Longrightarrow> state w1 = state w"
  by (auto simp: afterSubmission_def startFlashcards_def reconcileRelatedQuestions_def
      setTimeout_def call_defs Let_def split: option.splits if_splits)

lemma freshSubmission_throws:
  assumes "freshSubmission ops env q userId w = Inl (e, w1)"
  shows "keptButProgress (state w) (state w1)"
proof -
  obtain msgs outcome where sub:
    "submitQueryAndWait env \<lparr>req_query = q, req_user_id = userId\<rparr> = (msgs, outcome)"
    by (cases "submitQueryAndWait env \<lparr>req_query = q, req_user_id = userId\<rparr>")
  define w6 where "w6 = foldl (onProgress ops) (prepareSubmission ops env q userId w) msgs"
  have w6: "keptButProgress (state w) (state w6)"
    unfolding w6_def by (rule resolved_world_kept)
  show ?thesis
  proof (cases outcome)
    case (Inl e')
    with assms sub have "w1 = w6" by (simp add: freshSubmission_def w6_def)
    with w6 show ?thesis by simp
  next
    case (Inr result)
    with assms sub have "afterSubmission ops env q result w6 = Inl (e, w1)"
      by (simp add: freshSubmission_def w6_def)
    then have "state w1 = state w6" by (rule afterSubmission_throws)
    with w6 show ?thesis by simp
  qed
qed

lemma submitQuery_try_throws:
  assumes "submitQuery_try ops env q userId w = Inl (e, w1)"
  shows "keptButProgress (state w) (state w1)"
proof (cases "cacheStage env q w")
  case (Inl thrownAt)
  with assms have "cacheStage env q w = Inl (e, w1)" by (simp add: submitQuery_try_def)
  then have "w1 = logCall (CallGetCachedQueryId q) w" by (simp add: cacheStage_throws)
  then show ?thesis by (simp add: logCall_def keptButProgress_refl)
next
  case (Inr r)
  obtain returned w2 where r: "r = (returned, w2)" by (cases r)
  with Inr assms have nr: "\<not> returned" and fr: "freshSubmission ops env q userId w2 = Inl (e, w1)"
    by (auto simp: submitQuery_try_def split: bool.splits)
  from Inr r nr have "keptButProgress (state w) (state w2)"
    using cacheStage_falls_through [of env q w w2] by simp
  moreover from fr have "keptButProgress (state w2) (state w1)"
    by (rule freshSubmission_throws)
  ultimately show ?thesis by (rule keptButProgress_trans)
qed

lemma caught_state:
  assumes "submitQuery_try ops env q userId (beginSubmit w) = Inl (e, w1)"
  shows "submitQuery ops env q userId w = submitQuery_catch ops e w1"
    and "(state w1)\<lparr>loading := False, error := Some (errorMessage e), progress := None\<rparr> =
         (state w)\<lparr>loading := False, error := Some (errorMessage e), progress := None\<rparr>"
    and "queryId (state w1) = queryId (state w)" "lessons (state w1) = lessons (state w)"
      "relatedQuestions (state w1) = relatedQuestions (state w)"
proof -
  show "submitQuery ops env q userId w = submitQuery_catch ops e w1"
    using assms by (simp add: submitQuery_def)
  have "keptButProgress (state (beginSubmit w)) (state w1)"
    using assms by (rule submitQuery_try_throws)
  then show c: "queryId (state w1) = queryId (state w)" "lessons (state w1) = lessons (state w)"
    "relatedQuestions (state w1) = relatedQuestions (state w)"
    by (simp_all add: beginSubmit_def keptButProgress_def)
  then show "(state w1)\<lparr>loading := False, error := Some (errorMessage e), progress := None\<rparr> =
      (state w)\<lparr>loading := False, error := Some (errorMessage e), progress := None\<rparr>"
    by (rule content_commit)
qed

text \<open>
  Claim C4. Whenever the body of the \<^verbatim>\<open>try\<close> throws, a value \<open>e\<close> in a world \<open>w1\<close>,
  \<^verbatim>\<open>submitQuery\<close> ends in the state it was called in with \<^verbatim>\<open>loading\<close> false,
  \<^verbatim>\<open>error\<close> the message derived from \<open>e\<close> and \<^verbatim>\<open>progress\<close> null; \<^verbatim>\<open>queryId\<close>,
  \<^verbatim>\<open>lessons\<close> and \<^verbatim>\<open>relatedQuestions\<close> are what they were when the value was thrown
  and before the call; the last call is the tracker's \<^verbatim>\<open>reset\<close>.
\<close>

theorem error_path_commit:
  assumes "submitQuery_try ops env q userId (beginSubmit w) = Inl (e, w1)"
  shows "state (submitQuery ops env q userId w) =
           (state w)\<lparr>loading := False, error := Some (errorMessage e), progress := None\<rparr>
         \<and> queryId (state (submitQuery ops env q userId w)) = queryId (state w1)
         \<and> lessons (state (submitQuery ops env q userId w)) = lessons (state w1)
         \<and> relatedQuestions (state (submitQuery ops env q userId w)) = relatedQuestions (state w1)
         \<and> tracker (submitQuery ops env q userId w) = reset ops (tracker w1)
         \<and> calls (submitQuery ops env q userId w) = calls w1 @ [CallReset]"
  using caught_state [OF assms]
  by (simp add: submitQuery_catch_def call_defs)

text \<open>
  The spec's scenario: the submission rejects with status code 0 and message
  ECONNREFUSED while the spec's tracker is tracking; the tracker ends empty.
\<close>

theorem error_path_commit_witness:
  "(\<exists>w1. submitQuery_try spec_tracker env_refused ''photosynthesis'' None (beginSubmit world_tracking) =
      Inl (APIClientError 0 ''ECONNREFUSED'', w1))
   \<and> state (submitQuery spec_tracker env_refused ''photosynthesis'' None world_tracking) =
      \<lparr>loading = False,
       error = Some ''Connection failed: ECONNREFUSED. Is the backend server running on the correct port?'',
       queryId = None, lessons = None, relatedQuestions = None, progress = None\<rparr>
   \<and> tracker (submitQuery spec_tracker env_refused ''photosynthesis'' None world_tracking) = Map.empty"
proof -
  define w1 where "w1 = snd (projl (submitQuery_try spec_tracker env_refused ''photosynthesis'' None
    (beginSubmit world_tracking)))"
  have h: "submitQuery_try spec_tracker env_refused ''photosynthesis'' None (beginSubmit world_tracking) =
      Inl (APIClientError 0 ''ECONNREFUSED'', w1)"
    unfolding w1_def by (simp add: run_defs input_defs)
  from error_path_commit [OF h] h show ?thesis
    by (auto simp add: errorMessage_def input_defs)
qed

text \<open>
  Claim C5. The message the \<^verbatim>\<open>catch\<close> of \<^verbatim>\<open>submitQuery\<close> stores in \<^verbatim>\<open>error\<close> is
  derived from the thrown value: for an API-client error with status code 0,
  "Connection failed: detail. Is the backend server running on the correct port?";
  for an API-client error with another status code, "Backend error (code): detail";
  for any other \<^verbatim>\<open>Error\<close>, its message; for anything else, "An unexpected error
  occurred".
\<close>

theorem error_message_derivation:
  "(submitQuery_try ops env q userId (beginSubmit w) = Inl (e, w1) \<longrightarrow>
      error (state (submitQuery ops env q userId w)) = Some (errorMessage e))
   \<and> errorMessage (APIClientError 0 detail) =
       ''Connection failed: '' @ detail @ ''. Is the backend server running on the correct port?''
   \<and> (code \<noteq> 0 \<longrightarrow>
       errorMessage (APIClientError code detail) =
         ''Backend error ('' @ show_int code @ ''): '' @ detail)
   \<and> errorMessage (JsError message) = message
   \<and> errorMessage NonError = ''An unexpected error occurred''"
proof -
  have "error (state (submitQuery ops env q userId w)) = Some (errorMessage e)"
    if "submitQuery_try ops env q userId (beginSubmit w) = Inl (e, w1)"
    using caught_state(1) [OF that] by (simp add: submitQuery_catch_def call_defs)
  then show ?thesis by (simp add: errorMessage_def)
qed

theorem error_message_derivation_witness:
  "error (state (submitQuery spec_tracker env_refused ''photosynthesis'' None world0)) =
     Some ''Connection failed: ECONNREFUSED. Is the backend server running on the correct port?''
   \<and> errorMessage (APIClientError 503 ''Service Unavailable'') =
     ''Backend error (503): Service Unavailable''
   \<and> errorMessage (APIClientError (- 1) ''aborted'') = ''Backend error (-1): aborted''
   \<and> errorMessage (JsError ''QuotaExceededError'') = ''QuotaExceededError''
   \<and> errorMessage (JsError []) = []"
proof -
  define w1 where "w1 = snd (projl (submitQuery_try spec_tracker env_refused ''photosynthesis'' None
    (beginSubmit world0)))"
  have h: "submitQuery_try spec_tracker env_refused ''photosynthesis'' None (beginSubmit world0) =
      Inl (APIClientError 0 ''ECONNREFUSED'', w1)"
    unfolding w1_def by (simp add: run_defs input_defs)
  have d: "show_int 503 = ''503''" "show_int (- 1) = ''-1''"
    by (simp_all add: show_int_def show_nat.simps digit_char_def)
  from error_message_derivation [where ops = spec_tracker and env = env_refused
      and q = "''photosynthesis''" and userId = None and w = world0
      and e = "APIClientError 0 ''ECONNREFUSED''" and ?w1.0 = w1 and detail = "''ECONNREFUSED''"
      and code = 503 and message = "''QuotaExceededError''"]
    error_message_derivation [where ops = spec_tracker and env = env_refused
      and q = "''photosynthesis''" and userId = None and w = world0
      and e = "APIClientError 0 ''ECONNREFUSED''" and ?w1.0 = w1
      and detail = "''Service Unavailable''" and code = 503 and message = "[]"]
    error_message_derivation [where ops = spec_tracker and env = env_refused
      and q = "''photosynthesis''" and userId = None and w = world0
      and e = "APIClientError 0 ''ECONNREFUSED''" and ?w1.0 = w1
      and detail = "''aborted''" and code = "- 1" and message = "[]"]
    h d
  show ?thesis by simp
qed

text \<open>
  The empty string is no cached id: \<^verbatim>\<open>if (cachedQueryId)\<close> is false for it, so no
  fetch follows the probe, and line 191 stores an id only when it is truthy.
\<close>

lemma cacheStage_empty_id:
  "getCachedQueryId env q = Inr (Some []) \<Longrightarrow>
     cacheStage env q w = Inr (False, logCall (CallGetCachedQueryId q) w)"
  by (simp add: cacheStage_def Let_def)

text \<open>
  Claim C1. When the offline cache returns a cached id (a non-empty string) and the
  lessons fetch for it succeeds, \<^verbatim>\<open>submitQuery\<close> ends with \<^verbatim>\<open>loading\<close> false,
  \<^verbatim>\<open>queryId\<close> the cached id, \<^verbatim>\<open>lessons\<close> the fetched payload, \<^verbatim>\<open>relatedQuestions\<close>
  the fetched payload or null if that fetch failed, and \<^verbatim>\<open>progress\<close>
  "Cached content loaded!"; it has called the cache probe and the two fetches and
  nothing else, so \<^verbatim>\<open>submitQueryAndWait\<close> is not invoked.
\<close>

theorem cached_content_served:
  assumes "getCachedQueryId env q = Inr (Some cid)" and "cid \<noteq> []"
    and "getLessons env cid = Inr l"
  shows "state (submitQuery ops env q userId w) =
           (state w)\<lparr>loading := False, error := None, queryId := Some cid, lessons := Some l,
              relatedQuestions :=
                (case getRelatedQuestions env cid of Inl e \<Rightarrow> None | Inr r \<Rightarrow> Some r),
              progress := Some ''Cached content loaded!''\<rparr>
         \<and> callsSince w (submitQuery ops env q userId w) =
           [CallGetCachedQueryId q, CallGetLessons cid, CallGetRelatedQuestions cid]
         \<and> (\<forall>request. CallSubmitQueryAndWait request \<notin>
              set (callsSince w (submitQuery ops env q userId w)))"
  using cacheStage_hit [OF assms, of "beginSubmit w"]
  by (auto simp add: submitQuery_def submitQuery_try_def beginSubmit_def settledValue_def
      callsSince_def)

theorem cached_content_served_witness:
  "getCachedQueryId env_cached ''photosynthesis'' = Inr (Some ''q7'')
   \<and> getLessons env_cached ''q7'' = Inr ''lessons payload''
   \<and> state (submitQuery spec_tracker env_cached ''photosynthesis'' None world0) =
      \<lparr>loading = False, error = None, queryId = Some ''q7'', lessons = Some ''lessons payload'',
       relatedQuestions = None, progress = Some ''Cached content loaded!''\<rparr>
   \<and> calls (submitQuery spec_tracker env_cached ''photosynthesis'' None world0) =
      [CallGetCachedQueryId ''photosynthesis'', CallGetLessons ''q7'', CallGetRelatedQuestions ''q7'']"
proof -
  have h: "getCachedQueryId env_cached ''photosynthesis'' = Inr (Some ''q7'')" "''q7'' \<noteq> []"
    "getLessons env_cached ''q7'' = Inr ''lessons payload''"
    by (simp_all add: input_defs)
  from cached_content_served [OF h, of spec_tracker None world0] h show ?thesis
    by (simp add: input_defs callsSince_def)
qed

text \<open>
  Claim C10. When the cached path returns from \<^verbatim>\<open>submitQuery\<close> (line 75), the tracker
  is what it was before the call, none of the calls made is an operation of the
  tracker (in particular \<^verbatim>\<open>startTracking\<close> is not called), and no timer is scheduled.
  By \<open>cacheStage_returned\<close> and \<open>cacheStage_hit\<close> that path is taken exactly when the
  cache returns a truthy id whose lessons fetch succeeds.
\<close>

theorem cached_path_leaves_tracker:
  assumes "cacheStage env q (beginSubmit w) = Inr (True, w2)"
  shows "submitQuery ops env q userId w = w2
         \<and> tracker (submitQuery ops env q userId w) = tracker w
         \<and> filter isTrackerCall (callsSince w (submitQuery ops env q userId w)) = []
         \<and> (\<forall>sessionId. CallStartTracking sessionId \<notin>
              set (callsSince w (submitQuery ops env q userId w)))
         \<and> timers (submitQuery ops env q userId w) = timers w"
proof -
  from cacheStage_returned [OF assms] obtain cid l where
    h: "getCachedQueryId env q = Inr (Some cid)" "cid \<noteq> []" "getLessons env cid = Inr l"
    by blast
  from cacheStage_hit [OF h, of "beginSubmit w"] assms show ?thesis
    by (auto simp add: submitQuery_def submitQuery_try_def beginSubmit_def callsSince_def)
qed

theorem cached_path_leaves_tracker_witness:
  "(\<exists>w2. cacheStage env_cached ''photosynthesis'' (beginSubmit world_tracking) = Inr (True, w2))
   \<and> tracker (submitQuery spec_tracker env_cached ''photosynthesis'' None world_tracking) =
       tracker world_tracking
   \<and> tracker (submitQuery spec_tracker env_cached ''photosynthesis'' None world_tracking) LESSONS =
       Some \<lparr>status = PENDING, progressPercent = 0, failureReason = None\<rparr>
   \<and> filter isTrackerCall
       (calls (submitQuery spec_tracker env_cached ''photosynthesis'' None world_tracking)) = []"
proof -
  define w2 where "w2 = snd (projr (cacheStage env_cached ''photosynthesis'' (beginSubmit world_tracking)))"
  have h: "cacheStage env_cached ''photosynthesis'' (beginSubmit world_tracking) = Inr (True, w2)"
    unfolding w2_def by (simp add: run_defs input_defs)
  from cached_path_leaves_tracker [OF h, of spec_tracker None] h show ?thesis
    by (auto simp add: callsSince_def input_defs)
qed

text \<open>
  Claim C3, as amended. \<^verbatim>\<open>getCachedQueryId\<close> is awaited inside the outer \<^verbatim>\<open>try\<close>
  and outside the inner one: when it throws, the outer \<^verbatim>\<open>catch\<close> runs. The workflow
  ends with \<^verbatim>\<open>loading\<close> false, \<^verbatim>\<open>error\<close> the message derived from the thrown value
  and \<^verbatim>\<open>progress\<close> null, resets the tracker, and makes no health check and no
  submission.
\<close>

theorem cache_probe_failure_surfaced:
  assumes "getCachedQueryId env q = Inl e"
  shows "state (submitQuery ops env q userId w) =
           (state w)\<lparr>loading := False, error := Some (errorMessage e), progress := None\<rparr>
         \<and> tracker (submitQuery ops env q userId w) = reset ops (tracker w)
         \<and> callsSince w (submitQuery ops env q userId w) = [CallGetCachedQueryId q, CallReset]
         \<and> timers (submitQuery ops env q userId w) = timers w"
proof -
  have t: "submitQuery_try ops env q userId (beginSubmit w) =
      Inl (e, logCall (CallGetCachedQueryId q) (beginSubmit w))"
    using assms by (simp add: submitQuery_try_def cacheStage_def Let_def)
  from caught_state [OF t] show ?thesis
    by (simp add: submitQuery_catch_def call_defs beginSubmit_def callsSince_def)
qed

theorem cache_probe_failure_surfaced_witness:
  "getCachedQueryId env_probe_throws ''photosynthesis'' = Inl (JsError ''IndexedDB is not available'')
   \<and> state (submitQuery spec_tracker env_probe_throws ''photosynthesis'' None world_tracking) =
       \<lparr>loading = False, error = Some ''IndexedDB is not available'', queryId = None,
        lessons = None, relatedQuestions = None, progress = None\<rparr>
   \<and> tracker (submitQuery spec_tracker env_probe_throws ''photosynthesis'' None world_tracking) =
       Map.empty"
proof -
  have h: "getCachedQueryId env_probe_throws ''photosynthesis'' =
      Inl (JsError ''IndexedDB is not available'')"
    by (simp add: input_defs)
  from cache_probe_failure_surfaced [OF h, of spec_tracker None world_tracking] h show ?thesis
    by (simp add: input_defs errorMessage_def)
qed

text \<open>
  The statement that a failure of the cache probe is swallowed fails: here the
  probe throws and its message is the final \<^verbatim>\<open>error\<close>, with no fresh submission.
\<close>

theorem cache_probe_failure_counterexample:
  "getCachedQueryId env_probe_throws ''photosynthesis'' = Inl (JsError ''IndexedDB is not available'')
   \<and> error (state (submitQuery spec_tracker env_probe_throws ''photosynthesis'' None world0)) =
       Some ''IndexedDB is not available''
   \<and> loading (state (submitQuery spec_tracker env_probe_throws ''photosynthesis'' None world0)) = False
   \<and> calls (submitQuery spec_tracker env_probe_throws ''photosynthesis'' None world0) =
       [CallGetCachedQueryId ''photosynthesis'', CallReset]"
  by (simp add: run_defs input_defs errorMessage_def)

text \<open>
  Claim C2, as amended. \<^verbatim>\<open>saveQueryMapping\<close> is awaited inside the outer \<^verbatim>\<open>try\<close>:
  when the submission has resolved with a truthy \<^verbatim>\<open>queryId\<close> and persisting the
  mapping fails, the outer \<^verbatim>\<open>catch\<close> runs. The workflow ends in the state it was
  called in with \<^verbatim>\<open>loading\<close> false, \<^verbatim>\<open>error\<close> the message derived from the
  failure and \<^verbatim>\<open>progress\<close> null (the result is not committed), and the tracker is
  reset right after the failed call.
\<close>

theorem save_mapping_failure_surfaced:
  assumes "cacheStage env q (beginSubmit w) = Inr (False, w2)"
    and "submitQueryAndWait env \<lparr>req_query = q, req_user_id = userId\<rparr> = (msgs, Inr result)"
    and "res_queryId result = Some qid" and "qid \<noteq> []"
    and "saveQueryMapping env q qid = Some e"
  shows "state (submitQuery ops env q userId w) =
           (state w)\<lparr>loading := False, error := Some (errorMessage e), progress := None\<rparr>
         \<and> (\<exists>earlier. calls (submitQuery ops env q userId w) =
               earlier @ [CallSaveQueryMapping q qid, CallReset])
         \<and> (\<exists>t. tracker (submitQuery ops env q userId w) = reset ops t)"
proof -
  define w6 where "w6 = foldl (onProgress ops) (prepareSubmission ops env q userId w2) msgs"
  define w7 where "w7 = startFlashcards ops result (reconcileRelatedQuestions ops result w6)"
  have a: "afterSubmission ops env q result w6 = Inl (e, logCall (CallSaveQueryMapping q qid) w7)"
    using assms(3-5) by (simp add: afterSubmission_def w7_def Let_def)
  have t: "submitQuery_try ops env q userId (beginSubmit w) =
      Inl (e, logCall (CallSaveQueryMapping q qid) w7)"
    using assms(1,2) a by (simp add: submitQuery_try_def freshSubmission_def w6_def)
  from caught_state [OF t] show ?thesis
    by (auto simp add: submitQuery_catch_def call_defs)
qed

theorem save_mapping_failure_surfaced_witness:
  "(\<exists>w2. cacheStage env_save_fails ''photosynthesis'' (beginSubmit world0) = Inr (False, w2))
   \<and> saveQueryMapping env_save_fails ''photosynthesis'' ''q1'' = Some (JsError ''QuotaExceededError'')
   \<and> state (submitQuery spec_tracker env_save_fails ''photosynthesis'' None world0) =
       \<lparr>loading = False, error = Some ''QuotaExceededError'', queryId = None,
        lessons = None, relatedQuestions = None, progress = None\<rparr>"
proof -
  define w2 where "w2 = snd (projr (cacheStage env_save_fails ''photosynthesis'' (beginSubmit world0)))"
  have h1: "cacheStage env_save_fails ''photosynthesis'' (beginSubmit world0) = Inr (False, w2)"
    unfolding w2_def by (simp add: run_defs input_defs)
  have h2: "submitQueryAndWait env_save_fails \<lparr>req_query = ''photosynthesis'', req_user_id = None\<rparr> =
     ([''Query submitted'', ''Lessons ready''],
      Inr \<lparr>res_queryId = Some ''q1'', res_lessons = Some ''lessons payload'',
           res_relatedQuestions = None\<rparr>)"
    by (simp add: input_defs)
  have h3: "res_queryId \<lparr>res_queryId = Some ''q1'', res_lessons = Some ''lessons payload'',
           res_relatedQuestions = (None :: string option)\<rparr> = Some ''q1''" and h4: "''q1'' \<noteq> []"
    by simp_all
  have h5: "saveQueryMapping env_save_fails ''photosynthesis'' ''q1'' = Some (JsError ''QuotaExceededError'')"
    by (simp add: input_defs)
  from save_mapping_failure_surfaced [OF h1 h2 h3 h4 h5, of spec_tracker] h1 h5 show ?thesis
    by (auto simp add: input_defs errorMessage_def)
qed

text \<open>
  The statement that such a failure is not caught and not surfaced fails: here
  persisting fails after a successful submission, and the failure's message is the
  final \<^verbatim>\<open>error\<close>; the last call is the tracker's \<^verbatim>\<open>reset\<close>.
\<close>

theorem save_mapping_failure_counterexample:
  "submitQueryAndWait env_save_fails \<lparr>req_query = ''photosynthesis'', req_user_id = None\<rparr> =
     ([''Query submitted'', ''Lessons ready''],
      Inr \<lparr>res_queryId = Some ''q1'', res_lessons = Some ''lessons payload'',
           res_relatedQuestions = None\<rparr>)
   \<and> saveQueryMapping env_save_fails ''photosynthesis'' ''q1'' = Some (JsError ''QuotaExceededError'')
   \<and> error (state (submitQuery spec_tracker env_save_fails ''photosynthesis'' None world0)) =
       Some ''QuotaExceededError''
   \<and> progress (state (submitQuery spec_tracker env_save_fails ''photosynthesis'' None world0)) = None
   \<and> last (calls (submitQuery spec_tracker env_save_fails ''photosynthesis'' None world0)) = CallReset"
  by (simp add: run_defs input_defs errorMessage_def)

subsection \<open>The progress callback\<close>

text \<open>
  \<open>str_includes\<close> is \<^verbatim>\<open>String.prototype.includes\<close>: the pattern is a contiguous part
  of the text.
\<close>

lemma startsWith_iff: "startsWith s p \<longleftrightarrow> (\<exists>rest. s = p @ rest)"
  by (induction s p rule: startsWith.induct) auto

lemma str_includes_iff: "str_includes s p \<longleftrightarrow> (\<exists>before rest. s = before @ p @ rest)"
proof (induction s)
  case Nil
  show ?case by auto
next
  case (Cons c cs)
  show ?case
  proof
    assume "str_includes (c # cs) p"
    then consider "startsWith (c # cs) p" | "str_includes cs p" by auto
    then show "\<exists>before rest. c # cs = before @ p @ rest"
    proof cases
      case 1
      then obtain rest where "c # cs = p @ rest" by (auto simp: startsWith_iff)
      then have "c # cs = [] @ p @ rest" by simp
      then show ?thesis by blast
    next
      case 2
      with Cons.IH obtain before rest where "cs = before @ p @ rest" by blast
      then have "c # cs = (c # before) @ p @ rest" by simp
      then show ?thesis by blast
    qed
  next
    assume "\<exists>before rest. c # cs = before @ p @ rest"
    then obtain before rest where e: "c # cs = before @ p @ rest" by blast
    show "str_includes (c # cs) p"
    proof (cases before)
      case Nil
      with e have "startsWith (c # cs) p" by (auto simp: startsWith_iff)
      then show ?thesis by simp
    next
      case (Cons b bs)
      with e have "cs = bs @ p @ rest" by simp
      with Cons.IH have "str_includes cs p" by blast
      then show ?thesis by simp
    qed
  qed
qed

text \<open>
  Claim C6, as amended. Each call of the progress callback overwrites \<^verbatim>\<open>progress\<close>
  with the text received and changes nothing else of the state; the text is
  classified by substring in the order "submitted", "Lessons ready",
  "Related questions ready", "may take longer", the first match winning. In
  particular, for a text that contains "Lessons ready" and does not contain
  "submitted", the callback marks LESSONS completed, then sets RELATED_QUESTIONS to 50
  and FLASHCARDS to 10, and makes no other call.
\<close>

theorem progress_callback_classification:
  "state (onProgress ops w msg) = (state w)\<lparr>progress := Some msg\<rparr>
   \<and> (str_includes msg ''submitted'' \<longrightarrow>
        tracker (onProgress ops w msg) =
          updateTaskProgress ops RELATED_QUESTIONS 10 (updateTaskProgress ops LESSONS 20 (tracker w))
        \<and> callsSince w (onProgress ops w msg) =
          [CallUpdateTaskProgress LESSONS 20, CallUpdateTaskProgress RELATED_QUESTIONS 10])
   \<and> (\<not> str_includes msg ''submitted'' \<and> str_includes msg ''Lessons ready'' \<longrightarrow>
        tracker (onProgress ops w msg) =
          updateTaskProgress ops FLASHCARDS 10
            (updateTaskProgress ops RELATED_QUESTIONS 50 (markTaskCompleted ops LESSONS (tracker w)))
        \<and> callsSince w (onProgress ops w msg) =
          [CallMarkTaskCompleted LESSONS, CallUpdateTaskProgress RELATED_QUESTIONS 50,
           CallUpdateTaskProgress FLASHCARDS 10])
   \<and> (\<not> str_includes msg ''submitted'' \<and> \<not> str_includes msg ''Lessons ready'' \<and>
       str_includes msg ''Related questions ready'' \<longrightarrow>
        onProgress ops w msg =
          bumpFlashcardsIfLessonsDone ops
            (call_markTaskCompleted ops RELATED_QUESTIONS (setProgress msg w)))
   \<and> (\<not> str_includes msg ''submitted'' \<and> \<not> str_includes msg ''Lessons ready'' \<and>
       \<not> str_includes msg ''Related questions ready'' \<and> str_includes msg ''may take longer'' \<longrightarrow>
        onProgress ops w msg =
          bumpFlashcardsIfLessonsDone ops
            (call_markTaskFailed ops RELATED_QUESTIONS
               ''Related questions are taking longer than expected'' (setProgress msg w)))
   \<and> (\<not> str_includes msg ''submitted'' \<and> \<not> str_includes msg ''Lessons ready'' \<and>
       \<not> str_includes msg ''Related questions ready'' \<and> \<not> str_includes msg ''may take longer'' \<longrightarrow>
        tracker (onProgress ops w msg) = tracker w \<and> callsSince w (onProgress ops w msg) = [])"
  by (simp add: onProgress_state)
     (simp add: onProgress_def setProgress_def call_defs callsSince_def Let_def)

theorem progress_callback_classification_witness:
  "str_includes ''Query submitted'' ''submitted''
   \<and> tracker (onProgress spec_tracker world_tracking ''Query submitted'') LESSONS =
       Some \<lparr>status = PENDING, progressPercent = 20, failureReason = None\<rparr>
   \<and> \<not> str_includes ''Lessons ready'' ''submitted'' \<and> str_includes ''Lessons ready'' ''Lessons ready''
   \<and> progress (state (onProgress spec_tracker world_tracking ''Lessons ready'')) = Some ''Lessons ready''
   \<and> tracker (onProgress spec_tracker world_tracking ''Lessons ready'') LESSONS =
       Some \<lparr>status = COMPLETED, progressPercent = 0, failureReason = None\<rparr>
   \<and> tracker (onProgress spec_tracker world_tracking ''Lessons ready'') RELATED_QUESTIONS =
       Some \<lparr>status = PENDING, progressPercent = 50, failureReason = None\<rparr>
   \<and> tracker (onProgress spec_tracker world_tracking ''Lessons ready'') FLASHCARDS =
       Some \<lparr>status = PENDING, progressPercent = 10, failureReason = None\<rparr>
   \<and> str_includes ''Related questions ready'' ''Related questions ready''
   \<and> calls (onProgress spec_tracker world_tracking ''Related questions ready'') =
       [CallMarkTaskCompleted RELATED_QUESTIONS, CallGetTaskByType LESSONS]
   \<and> str_includes ''Related questions may take longer'' ''may take longer''
   \<and> tracker (onProgress spec_tracker world_tracking ''Related questions may take longer'')
         RELATED_QUESTIONS =
       Some \<lparr>status = FAILED, progressPercent = 0,
             failureReason = Some ''Related questions are taking longer than expected''\<rparr>
   \<and> \<not> str_includes ''Generating content'' ''may take longer''
   \<and> calls (onProgress spec_tracker world_tracking ''Generating content'') = []"
  using progress_callback_classification [of spec_tracker world_tracking "''Query submitted''"]
    progress_callback_classification [of spec_tracker world_tracking "''Lessons ready''"]
    progress_callback_classification [of spec_tracker world_tracking "''Related questions ready''"]
    progress_callback_classification [of spec_tracker world_tracking
      "''Related questions may take longer''"]
    progress_callback_classification [of spec_tracker world_tracking "''Generating content''"]
  by (simp add: input_defs callsSince_def bumpFlashcardsIfLessonsDone_def statusIs_def
      setProgress_def call_defs Let_def)

text \<open>
  For every text containing "Lessons ready" the statement fails: a text that
  also contains "submitted" takes the first branch, which leaves LESSONS pending at
  20 and does not touch FLASHCARDS.
\<close>

theorem progress_both_keywords_counterexample:
  "str_includes ''Query submitted. Lessons ready'' ''Lessons ready''
   \<and> tracker (onProgress spec_tracker world_tracking ''Query submitted. Lessons ready'') LESSONS =
       Some \<lparr>status = PENDING, progressPercent = 20, failureReason = None\<rparr>
   \<and> tracker (onProgress spec_tracker world_tracking ''Query submitted. Lessons ready'') FLASHCARDS =
       Some \<lparr>status = PENDING, progressPercent = 0, failureReason = None\<rparr>
   \<and> calls (onProgress spec_tracker world_tracking ''Query submitted. Lessons ready'') =
       [CallUpdateTaskProgress LESSONS 20, CallUpdateTaskProgress RELATED_QUESTIONS 10]"
  by (simp add: run_defs input_defs)

subsection \<open>After the submission\<close>

lemma committed_state:
  fixes s :: "'c QueryState"
  shows "s\<lparr>loading := a, queryId := b, lessons := c, relatedQuestions := d, progress := p\<rparr> =
     \<lparr>loading = a, error = error s, queryId = b, lessons = c, relatedQuestions = d, progress = p\<rparr>"
  by (cases s) simp

text \<open>
  Claim C7, as amended. Let a fresh submission resolve with lessons present and
  related questions absent, in a world \<open>w6\<close> whose RELATED_QUESTIONS task is neither
  COMPLETED nor FAILED. Then, whatever persisting the mapping does, the first calls
  after the submission read the RELATED_QUESTIONS task, mark it FAILED with reason
  "Related questions could not be generated" and set FLASHCARDS to 50. When no
  truthy \<^verbatim>\<open>queryId\<close> was returned or persisting the mapping does not fail, the final
  state is \<^verbatim>\<open>loading\<close> false, \<^verbatim>\<open>error\<close> null, \<^verbatim>\<open>queryId\<close> and \<^verbatim>\<open>lessons\<close> from the
  result, \<^verbatim>\<open>relatedQuestions\<close> null and \<^verbatim>\<open>progress\<close> "Query completed!", and the
  tracker is the one so marked. When persisting fails, the tracker so marked is
  reset.
\<close>

theorem related_questions_reconciled:
  assumes cache: "cacheStage env q (beginSubmit w) = Inr (False, w2)"
    and sub: "submitQueryAndWait env \<lparr>req_query = q, req_user_id = userId\<rparr> = (msgs, Inr result)"
    and res: "res_lessons result = Some l" "res_relatedQuestions result = None"
    and w6: "w6 = foldl (onProgress ops) (prepareSubmission ops env q userId w2) msgs"
    and task: "\<not> statusIs (getTaskByType ops (tracker w6) RELATED_QUESTIONS) COMPLETED"
      "\<not> statusIs (getTaskByType ops (tracker w6) RELATED_QUESTIONS) FAILED"
  shows "take 3 (callsSince w6 (submitQuery ops env q userId w)) =
           [CallGetTaskByType RELATED_QUESTIONS,
            CallMarkTaskFailed RELATED_QUESTIONS ''Related questions could not be generated'',
            CallUpdateTaskProgress FLASHCARDS 50]
         \<and> (\<not> truthy (res_queryId result) \<or>
              (\<exists>qid. res_queryId result = Some qid \<and> saveQueryMapping env q qid = None) \<longrightarrow>
            state (submitQuery ops env q userId w) =
              \<lparr>loading = False, error = None, queryId = res_queryId result, lessons = Some l,
               relatedQuestions = None, progress = Some ''Query completed!''\<rparr>
            \<and> tracker (submitQuery ops env q userId w) =
              updateTaskProgress ops FLASHCARDS 50
                (markTaskFailed ops RELATED_QUESTIONS ''Related questions could not be generated''
                   (tracker w6)))
         \<and> (\<forall>qid e. res_queryId result = Some qid \<and> qid \<noteq> [] \<and>
                saveQueryMapping env q qid = Some e \<longrightarrow>
            tracker (submitQuery ops env q userId w) =
              reset ops (updateTaskProgress ops FLASHCARDS 50
                (markTaskFailed ops RELATED_QUESTIONS ''Related questions could not be generated''
                   (tracker w6))))"
proof -
  define w7 where "w7 = startFlashcards ops result (reconcileRelatedQuestions ops result w6)"
  define final where "final = submitQuery ops env q userId w"
  have k: "keptButProgress (state (beginSubmit w)) (state w6)"
    using cacheStage_falls_through [OF cache] resolved_world_kept [of w2 ops env q userId msgs]
    unfolding w6 by (blast intro: keptButProgress_trans)
  then have e6: "error (state w6) = None"
    by (simp add: keptButProgress_def beginSubmit_def)
  have s7: "state w7 = state w6"
    and t7: "tracker w7 = updateTaskProgress ops FLASHCARDS 50
       (markTaskFailed ops RELATED_QUESTIONS ''Related questions could not be generated'' (tracker w6))"
    and c7: "calls w7 = calls w6 @ [CallGetTaskByType RELATED_QUESTIONS,
       CallMarkTaskFailed RELATED_QUESTIONS ''Related questions could not be generated'',
       CallUpdateTaskProgress FLASHCARDS 50]"
    using res task
    by (simp_all add: w7_def startFlashcards_def reconcileRelatedQuestions_def setTimeout_def
        call_defs Let_def)
  have body: "submitQuery_try ops env q userId (beginSubmit w) = afterSubmission ops env q result w6"
    using cache sub by (simp add: submitQuery_try_def freshSubmission_def w6)
  have committed: "state final = \<lparr>loading = False, error = None, queryId = res_queryId result,
        lessons = Some l, relatedQuestions = None, progress = Some ''Query completed!''\<rparr>
      \<and> tracker final = tracker w7 \<and> (\<exists>later. calls final = calls w7 @ later)"
    if "\<not> truthy (res_queryId result) \<or>
        (\<exists>qid. res_queryId result = Some qid \<and> saveQueryMapping env q qid = None)"
  proof -
    from that have "\<exists>w8. afterSubmission ops env q result w6 = Inr (commitResult result w8) \<and>
        state w8 = state w7 \<and> tracker w8 = tracker w7 \<and> (\<exists>later. calls w8 = calls w7 @ later)"
      by (cases "res_queryId result")
         (auto simp: afterSubmission_def w7_def [symmetric] Let_def logCall_def)
    then obtain w8 later where a: "afterSubmission ops env q result w6 = Inr (commitResult result w8)"
      and w8: "state w8 = state w7" "tracker w8 = tracker w7" "calls w8 = calls w7 @ later"
      by blast
    have "final = commitResult result w8"
      using body a by (simp add: final_def submitQuery_def)
    with w8 s7 e6 res show ?thesis
      by (simp add: commitResult_def committed_state)
  qed
  have failed: "tracker final = reset ops (tracker w7) \<and> (\<exists>later. calls final = calls w7 @ later)"
    if "res_queryId result = Some qid" "qid \<noteq> []" "saveQueryMapping env q qid = Some e"
    for qid e
  proof -
    have "afterSubmission ops env q result w6 = Inl (e, logCall (CallSaveQueryMapping q qid) w7)"
      using that by (simp add: afterSubmission_def w7_def Let_def)
    with body have "submitQuery_try ops env q userId (beginSubmit w) =
        Inl (e, logCall (CallSaveQueryMapping q qid) w7)"
      by simp
    from caught_state(1) [OF this] show ?thesis
      by (simp add: final_def submitQuery_catch_def call_defs)
  qed
  have "\<exists>later. calls final = calls w7 @ later"
  proof (cases "res_queryId result")
    case None
    then show ?thesis using committed by simp
  next
    case (Some qid)
    show ?thesis
    proof (cases "qid = []")
      case True
      with Some show ?thesis using committed by simp
    next
      case False
      show ?thesis
      proof (cases "saveQueryMapping env q qid")
        case None
        with Some show ?thesis using committed by simp
      next
        case (Some e)
        with \<open>res_queryId result = Some qid\<close> False show ?thesis using failed by blast
      qed
    qed
  qed
  then obtain later where "calls final = calls w6 @ [CallGetTaskByType RELATED_QUESTIONS,
       CallMarkTaskFailed RELATED_QUESTIONS ''Related questions could not be generated'',
       CallUpdateTaskProgress FLASHCARDS 50] @ later"
    using c7 by auto
  then have marked: "take 3 (callsSince w6 final) = [CallGetTaskByType RELATED_QUESTIONS,
       CallMarkTaskFailed RELATED_QUESTIONS ''Related questions could not be generated'',
       CallUpdateTaskProgress FLASHCARDS 50]"
    by (simp add: callsSince_def)
  from marked committed failed show ?thesis
    unfolding final_def t7 [symmetric] by blast
qed

text \<open>
  The spec's scenario (no cache entry, a healthy backend, a submission resolving
  with \<^verbatim>\<open>queryId\<close> q1, lessons and no related questions), and the same run with
  a \<^verbatim>\<open>saveQueryMapping\<close> that rejects: the task is marked in both.
\<close>

theorem related_questions_reconciled_witness:
  "state (submitQuery spec_tracker env0 ''photosynthesis'' None world0) =
     \<lparr>loading = False, error = None, queryId = Some ''q1'', lessons = Some ''lessons payload'',
      relatedQuestions = None, progress = Some ''Query completed!''\<rparr>
   \<and> tracker (submitQuery spec_tracker env0 ''photosynthesis'' None world0) RELATED_QUESTIONS =
     Some \<lparr>status = FAILED, progressPercent = 50,
           failureReason = Some ''Related questions could not be generated''\<rparr>
   \<and> saveQueryMapping env0 ''photosynthesis'' ''q1'' = None
   \<and> saveQueryMapping env_save_fails ''photosynthesis'' ''q1'' = Some (JsError ''QuotaExceededError'')
   \<and> CallMarkTaskFailed RELATED_QUESTIONS ''Related questions could not be generated''
       \<in> set (calls (submitQuery spec_tracker env_save_fails ''photosynthesis'' None world0))
   \<and> tracker (submitQuery spec_tracker env_save_fails ''photosynthesis'' None world0) = Map.empty"
proof -
  define result :: "string SubmitResult" where "result = \<lparr>res_queryId = Some ''q1'',
    res_lessons = Some ''lessons payload'', res_relatedQuestions = None\<rparr>"
  have h3: "res_lessons result = Some ''lessons payload''" "res_relatedQuestions result = None"
    by (simp_all add: result_def)
  define w2 where "w2 = logCall (CallGetCachedQueryId ''photosynthesis'') (beginSubmit world0)"
  txt \<open>The run in which persisting succeeds.\<close>
  define w6 where "w6 = foldl (onProgress spec_tracker)
    (prepareSubmission spec_tracker env0 ''photosynthesis'' None w2) [''Query submitted'', ''Lessons ready'']"
  have h1: "cacheStage env0 ''photosynthesis'' (beginSubmit world0) = Inr (False, w2)"
    by (simp add: w2_def cacheStage_def input_defs Let_def)
  have h2: "submitQueryAndWait env0 \<lparr>req_query = ''photosynthesis'', req_user_id = None\<rparr> =
      ([''Query submitted'', ''Lessons ready''], Inr result)"
    by (simp add: input_defs result_def)
  have t6: "getTaskByType spec_tracker (tracker w6) RELATED_QUESTIONS =
      Some \<lparr>status = PENDING, progressPercent = 50, failureReason = None\<rparr>"
    by (simp add: w6_def w2_def run_defs input_defs)
  have h5: "\<not> statusIs (getTaskByType spec_tracker (tracker w6) RELATED_QUESTIONS) COMPLETED"
    "\<not> statusIs (getTaskByType spec_tracker (tracker w6) RELATED_QUESTIONS) FAILED"
    by (simp_all add: t6 statusIs_def)
  have h6: "\<not> truthy (res_queryId result) \<or>
      (\<exists>qid. res_queryId result = Some qid \<and> saveQueryMapping env0 ''photosynthesis'' qid = None)"
    by (simp add: result_def input_defs)
  have t: "tracker w6 RELATED_QUESTIONS =
      Some \<lparr>status = PENDING, progressPercent = 50, failureReason = None\<rparr>"
    using t6 by (simp add: spec_tracker_def)
  note r = related_questions_reconciled [OF h1 h2 h3 w6_def h5]
  from r h6 have s: "state (submitQuery spec_tracker env0 ''photosynthesis'' None world0) =
     \<lparr>loading = False, error = None, queryId = res_queryId result,
      lessons = Some ''lessons payload'',
      relatedQuestions = None, progress = Some ''Query completed!''\<rparr>"
    by blast
  from r h6 have tr: "tracker (submitQuery spec_tracker env0 ''photosynthesis'' None world0) =
      updateTaskProgress spec_tracker FLASHCARDS 50
        (markTaskFailed spec_tracker RELATED_QUESTIONS ''Related questions could not be generated''
           (tracker w6))"
    by blast
  have a: "tracker (submitQuery spec_tracker env0 ''photosynthesis'' None world0) RELATED_QUESTIONS =
     Some \<lparr>status = FAILED, progressPercent = 50,
           failureReason = Some ''Related questions could not be generated''\<rparr>"
    unfolding tr using t by (simp add: spec_tracker_def spec_update_def split: option.splits)
  txt \<open>The run in which persisting fails.\<close>
  define v6 where "v6 = foldl (onProgress spec_tracker)
    (prepareSubmission spec_tracker env_save_fails ''photosynthesis'' None w2)
    [''Query submitted'', ''Lessons ready'']"
  have g1: "cacheStage env_save_fails ''photosynthesis'' (beginSubmit world0) = Inr (False, w2)"
    by (simp add: w2_def cacheStage_def input_defs Let_def)
  have g2: "submitQueryAndWait env_save_fails
      \<lparr>req_query = ''photosynthesis'', req_user_id = None\<rparr> =
      ([''Query submitted'', ''Lessons ready''], Inr result)"
    by (simp add: input_defs result_def)
  have u6: "getTaskByType spec_tracker (tracker v6) RELATED_QUESTIONS =
      Some \<lparr>status = PENDING, progressPercent = 50, failureReason = None\<rparr>"
    by (simp add: v6_def w2_def run_defs input_defs)
  have g5: "\<not> statusIs (getTaskByType spec_tracker (tracker v6) RELATED_QUESTIONS) COMPLETED"
    "\<not> statusIs (getTaskByType spec_tracker (tracker v6) RELATED_QUESTIONS) FAILED"
    by (simp_all add: u6 statusIs_def)
  have g6: "res_queryId result = Some ''q1'' \<and> ''q1'' \<noteq> [] \<and>
      saveQueryMapping env_save_fails ''photosynthesis'' ''q1'' = Some (JsError ''QuotaExceededError'')"
    by (simp add: result_def input_defs)
  note f = related_questions_reconciled [OF g1 g2 h3 v6_def g5]
  from f have "CallMarkTaskFailed RELATED_QUESTIONS ''Related questions could not be generated''
       \<in> set (take 3 (callsSince v6
            (submitQuery spec_tracker env_save_fails ''photosynthesis'' None world0)))"
    by simp
  then have b: "CallMarkTaskFailed RELATED_QUESTIONS ''Related questions could not be generated''
       \<in> set (calls (submitQuery spec_tracker env_save_fails ''photosynthesis'' None world0))"
    unfolding callsSince_def by (blast dest: in_set_takeD in_set_dropD)
  from f g6 have "tracker (submitQuery spec_tracker env_save_fails ''photosynthesis'' None world0) =
      reset spec_tracker (updateTaskProgress spec_tracker FLASHCARDS 50
        (markTaskFailed spec_tracker RELATED_QUESTIONS ''Related questions could not be generated''
           (tracker v6)))"
    by blast
  then have c: "tracker (submitQuery spec_tracker env_save_fails ''photosynthesis'' None world0) =
      Map.empty"
    by (simp add: spec_tracker_def)
  from s a b c g6 show ?thesis
    by (simp add: result_def env0_def)
qed

text \<open>
  Without the condition on persisting, the statement fails: the same submission
  with a \<^verbatim>\<open>saveQueryMapping\<close> that rejects ends on the error path, with nothing
  committed and the tracker reset.
\<close>

theorem query_completed_counterexample:
  "submitQueryAndWait env_save_fails \<lparr>req_query = ''photosynthesis'', req_user_id = None\<rparr> =
     ([''Query submitted'', ''Lessons ready''],
      Inr \<lparr>res_queryId = Some ''q1'', res_lessons = Some ''lessons payload'',
           res_relatedQuestions = None\<rparr>)
   \<and> getTaskByType spec_tracker
       (tracker (foldl (onProgress spec_tracker)
          (prepareSubmission spec_tracker env_save_fails ''photosynthesis'' None
             (logCall (CallGetCachedQueryId ''photosynthesis'') (beginSubmit world0)))
          [''Query submitted'', ''Lessons ready''])) RELATED_QUESTIONS =
       Some \<lparr>status = PENDING, progressPercent = 50, failureReason = None\<rparr>
   \<and> state (submitQuery spec_tracker env_save_fails ''photosynthesis'' None world0) =
       \<lparr>loading = False, error = Some ''QuotaExceededError'', queryId = None, lessons = None,
        relatedQuestions = None, progress = None\<rparr>
   \<and> tracker (submitQuery spec_tracker env_save_fails ''photosynthesis'' None world0)
        RELATED_QUESTIONS = None"
  by (simp add: run_defs input_defs errorMessage_def)

lemma getFlashcards_cases:
  "(case lessonIndex of Some i \<Rightarrow> api_getFlashcardsByLesson api qid i
                      | None \<Rightarrow> api_getFlashcards api qid) = outcome \<Longrightarrow>
   getFlashcards api qid lessonIndex =
     (case outcome of
        Inr v \<Rightarrow> ([SetLoading True, SetError None,
                   (case lessonIndex of Some i \<Rightarrow> ApiGetFlashcardsByLesson qid i
                                      | None \<Rightarrow> ApiGetFlashcards qid),
                   SetLoading False], Some v)
      | Inl e \<Rightarrow> ([SetLoading True, SetError None,
                   (case lessonIndex of Some i \<Rightarrow> ApiGetFlashcardsByLesson qid i
                                      | None \<Rightarrow> ApiGetFlashcards qid),
                   SetError (Some (case e of APIClientError c m \<Rightarrow> m | JsError m \<Rightarrow> m
                                           | NonError \<Rightarrow> ''Failed to get flashcards'')),
                   SetLoading False], None))"
  by (auto simp: getFlashcards_def Let_def split: option.splits sum.splits)

lemma getQuiz_cases:
  "api_getQuiz api qid (case lessonIndex of None \<Rightarrow> 0 | Some i \<Rightarrow> i) = outcome \<Longrightarrow>
   getQuiz api qid lessonIndex =
     (case outcome of
        Inr v \<Rightarrow> ([SetLoading True, SetError None,
                   ApiGetQuiz qid (case lessonIndex of None \<Rightarrow> 0 | Some i \<Rightarrow> i),
                   SetLoading False], Some v)
      | Inl e \<Rightarrow> ([SetLoading True, SetError None,
                   ApiGetQuiz qid (case lessonIndex of None \<Rightarrow> 0 | Some i \<Rightarrow> i),
                   SetError (Some (case e of APIClientError c m \<Rightarrow> m | JsError m \<Rightarrow> m
                                           | NonError \<Rightarrow> ''Failed to get quiz'')),
                   SetLoading False], None))"
  by (auto simp: getQuiz_def Let_def split: option.splits sum.splits)

text \<open>
  Claim C8. For \<^verbatim>\<open>getFlashcards\<close> and \<^verbatim>\<open>getQuiz\<close> alike: the first two writes set
  \<^verbatim>\<open>loading\<close> to true and \<^verbatim>\<open>error\<close> to null, before the call on \<^verbatim>\<open>APIClient\<close>;
  \<^verbatim>\<open>loading\<close> is not written again until the last write, which sets it to false
  on success and on failure; on success the payload is returned and \<^verbatim>\<open>error\<close>
  stays null; on failure null is returned and \<^verbatim>\<open>error\<close> is the message of the
  API-client error or of the \<^verbatim>\<open>Error\<close>, and "Failed to get flashcards" or
  "Failed to get quiz" for any other thrown value. \<^verbatim>\<open>getQuiz\<close> without a lesson index
  is \<^verbatim>\<open>getQuiz\<close> with index 0 and calls \<^verbatim>\<open>APIClient.getQuiz\<close> with 0.
\<close>

theorem content_fetch_contract:
  fixes api :: "'c content_api" and s :: ContentHookState and qid :: string
    and lessonIndex :: "int option"
  defines "flashcards \<equiv> getFlashcards api qid lessonIndex"
    and "flashcardsOutcome \<equiv> (case lessonIndex of
           Some i \<Rightarrow> api_getFlashcardsByLesson api qid i
         | None \<Rightarrow> api_getFlashcards api qid)"
    and "quiz \<equiv> getQuiz api qid lessonIndex"
    and "quizOutcome \<equiv> api_getQuiz api qid (case lessonIndex of None \<Rightarrow> 0 | Some i \<Rightarrow> i)"
  shows "applyEvents s (take 2 (fst flashcards)) = \<lparr>content_loading = True, content_error = None\<rparr>
         \<and> (\<forall>b. SetLoading b \<notin> set (butlast (drop 2 (fst flashcards))))
         \<and> last (fst flashcards) = SetLoading False
         \<and> content_loading (applyEvents s (fst flashcards)) = False
         \<and> (\<forall>v. flashcardsOutcome = Inr v \<longrightarrow>
               snd flashcards = Some v \<and> content_error (applyEvents s (fst flashcards)) = None)
         \<and> (\<forall>code message. flashcardsOutcome = Inl (APIClientError code message) \<longrightarrow>
               snd flashcards = None \<and>
               content_error (applyEvents s (fst flashcards)) = Some message)
         \<and> (\<forall>message. flashcardsOutcome = Inl (JsError message) \<longrightarrow>
               snd flashcards = None \<and>
               content_error (applyEvents s (fst flashcards)) = Some message)
         \<and> (flashcardsOutcome = Inl NonError \<longrightarrow>
               snd flashcards = None \<and>
               content_error (applyEvents s (fst flashcards)) = Some ''Failed to get flashcards'')
         \<and> applyEvents s (take 2 (fst quiz)) = \<lparr>content_loading = True, content_error = None\<rparr>
         \<and> (\<forall>b. SetLoading b \<notin> set (butlast (drop 2 (fst quiz))))
         \<and> last (fst quiz) = SetLoading False
         \<and> content_loading (applyEvents s (fst quiz)) = False
         \<and> (\<forall>v. quizOutcome = Inr v \<longrightarrow>
               snd quiz = Some v \<and> content_error (applyEvents s (fst quiz)) = None)
         \<and> (\<forall>code message. quizOutcome = Inl (APIClientError code message) \<longrightarrow>
               snd quiz = None \<and> content_error (applyEvents s (fst quiz)) = Some message)
         \<and> (\<forall>message. quizOutcome = Inl (JsError message) \<longrightarrow>
               snd quiz = None \<and> content_error (applyEvents s (fst quiz)) = Some message)
         \<and> (quizOutcome = Inl NonError \<longrightarrow>
               snd quiz = None \<and>
               content_error (applyEvents s (fst quiz)) = Some ''Failed to get quiz'')
         \<and> getQuiz api qid None = getQuiz api qid (Some 0)
         \<and> fst (getQuiz api qid None) ! 2 = ApiGetQuiz qid 0"
proof -
  have f: "flashcards = (case flashcardsOutcome of
        Inr v \<Rightarrow> ([SetLoading True, SetError None,
                   (case lessonIndex of Some i \<Rightarrow> ApiGetFlashcardsByLesson qid i
                                      | None \<Rightarrow> ApiGetFlashcards qid),
                   SetLoading False], Some v)
      | Inl e \<Rightarrow> ([SetLoading True, SetError None,
                   (case lessonIndex of Some i \<Rightarrow> ApiGetFlashcardsByLesson qid i
                                      | None \<Rightarrow> ApiGetFlashcards qid),
                   SetError (Some (case e of APIClientError c m \<Rightarrow> m | JsError m \<Rightarrow> m
                                           | NonError \<Rightarrow> ''Failed to get flashcards'')),
                   SetLoading False], None))"
    unfolding flashcards_def flashcardsOutcome_def by (rule getFlashcards_cases) (rule refl)
  have g: "quiz = (case quizOutcome of
        Inr v \<Rightarrow> ([SetLoading True, SetError None,
                   ApiGetQuiz qid (case lessonIndex of None \<Rightarrow> 0 | Some i \<Rightarrow> i),
                   SetLoading False], Some v)
      | Inl e \<Rightarrow> ([SetLoading True, SetError None,
                   ApiGetQuiz qid (case lessonIndex of None \<Rightarrow> 0 | Some i \<Rightarrow> i),
                   SetError (Some (case e of APIClientError c m \<Rightarrow> m | JsError m \<Rightarrow> m
                                           | NonError \<Rightarrow> ''Failed to get quiz'')),
                   SetLoading False], None))"
    unfolding quiz_def quizOutcome_def by (rule getQuiz_cases) (rule refl)
  have fl: "applyEvents s (take 2 (fst flashcards)) = \<lparr>content_loading = True, content_error = None\<rparr>
         \<and> (\<forall>b. SetLoading b \<notin> set (butlast (drop 2 (fst flashcards))))
         \<and> last (fst flashcards) = SetLoading False
         \<and> content_loading (applyEvents s (fst flashcards)) = False
         \<and> (\<forall>v. flashcardsOutcome = Inr v \<longrightarrow>
               snd flashcards = Some v \<and> content_error (applyEvents s (fst flashcards)) = None)
         \<and> (\<forall>code message. flashcardsOutcome = Inl (APIClientError code message) \<longrightarrow>
               snd flashcards = None \<and>
               content_error (applyEvents s (fst flashcards)) = Some message)
         \<and> (\<forall>message. flashcardsOutcome = Inl (JsError message) \<longrightarrow>
               snd flashcards = None \<and>
               content_error (applyEvents s (fst flashcards)) = Some message)
         \<and> (flashcardsOutcome = Inl NonError \<longrightarrow>
               snd flashcards = None \<and>
               content_error (applyEvents s (fst flashcards)) = Some ''Failed to get flashcards'')"
    unfolding f by (cases flashcardsOutcome; cases lessonIndex) (simp_all add: applyEvents_def)
  have qz: "applyEvents s (take 2 (fst quiz)) = \<lparr>content_loading = True, content_error = None\<rparr>
         \<and> (\<forall>b. SetLoading b \<notin> set (butlast (drop 2 (fst quiz))))
         \<and> last (fst quiz) = SetLoading False
         \<and> content_loading (applyEvents s (fst quiz)) = False
         \<and> (\<forall>v. quizOutcome = Inr v \<longrightarrow>
               snd quiz = Some v \<and> content_error (applyEvents s (fst quiz)) = None)
         \<and> (\<forall>code message. quizOutcome = Inl (APIClientError code message) \<longrightarrow>
               snd quiz = None \<and> content_error (applyEvents s (fst quiz)) = Some message)
         \<and> (\<forall>message. quizOutcome = Inl (JsError message) \<longrightarrow>
               snd quiz = None \<and> content_error (applyEvents s (fst quiz)) = Some message)
         \<and> (quizOutcome = Inl NonError \<longrightarrow>
               snd quiz = None \<and>
               content_error (applyEvents s (fst quiz)) = Some ''Failed to get quiz'')"
    unfolding g by (cases quizOutcome) (simp_all add: applyEvents_def)
  have q0: "getQuiz api qid None = getQuiz api qid (Some 0)"
    "fst (getQuiz api qid None) ! 2 = ApiGetQuiz qid 0"
    by (simp_all add: getQuiz_def Let_def split: sum.splits)
  from fl qz q0 show ?thesis by blast
qed


theorem content_fetch_contract_witness:
  "content_loading (applyEvents hook0 (fst (getFlashcards api0 ''q1'' None))) = False
   \<and> snd (getFlashcards api0 ''q1'' None) = Some ''all flashcards''
   \<and> content_error (applyEvents hook0 (fst (getFlashcards api0 ''q1'' None))) = None
   \<and> snd (getFlashcards api0 ''q1'' (Some 2)) = None
   \<and> content_error (applyEvents hook0 (fst (getFlashcards api0 ''q1'' (Some 2)))) =
       Some ''No such lesson''
   \<and> content_error (applyEvents hook0 (fst (getFlashcards api_fails ''q1'' None))) =
       Some ''Failed to get flashcards''
   \<and> snd (getQuiz api0 ''q1'' None) = Some ''quiz of lesson 0''
   \<and> content_error (applyEvents hook0 (fst (getQuiz api0 ''q1'' (Some 2)))) =
       Some ''Failed to get quiz''
   \<and> snd (getQuiz api_fails ''q1'' None) = None
   \<and> content_error (applyEvents hook0 (fst (getQuiz api_fails ''q1'' None))) =
       Some ''Network request failed''"
  using content_fetch_contract [of hook0 api0 "''q1''" None]
    content_fetch_contract [of hook0 api0 "''q1''" "Some 2"]
    content_fetch_contract [of hook0 api_fails "''q1''" None]
  by (simp add: api0_def api_fails_def hook0_def getFlashcards_def getQuiz_def applyEvents_def
      Let_def)

section \<open>Properties of the app shell\<close>

lemma sort_key_head_least:
  assumes "sort_key f xs = m # others"
  shows "m \<in> set xs \<and> (\<forall>x \<in> set xs. f m \<le> f x)"
proof -
  have "set (m # others) = set xs"
    using set_sort [of f xs] assms by simp
  moreover have "sorted (map f (m # others))"
    using sorted_sort_key [of f xs] assms by simp
  ultimately show ?thesis by auto
qed

text \<open>
  Claim C9. With no current topic, \<^verbatim>\<open>handleShowExplanation\<close> goes to the home view
  when the lesson-progress list is empty. Otherwise it picks an entry \<open>m\<close> of the
  list whose \<^verbatim>\<open>createdAt\<close> is the latest and starts exploration for its topic with
  \<^verbatim>\<open>fromLessonContinue\<close> true; as \<open>m\<close> heads the sorted list, this resumes \<open>m\<close>: the
  topic becomes the topic of \<open>m\<close>, the step index the last accessed step of its
  query id, the view the explanation view (and when \<^verbatim>\<open>getLastAccessedLesson\<close>
  rejects, only the topic is set).
\<close>

theorem show_explanation_without_topic:
  assumes "currentTopic s = []"
  shows "(lessonProgressList = [] \<longrightarrow>
           handleShowExplanation getLastAccessedLesson lessonProgressList s =
             Inr (s\<lparr>currentState := Home\<rparr>))
         \<and> (lessonProgressList \<noteq> [] \<longrightarrow>
           (\<exists>m \<in> set lessonProgressList.
              (\<forall>l \<in> set lessonProgressList. lp_createdAt l \<le> lp_createdAt m)
              \<and> handleShowExplanation getLastAccessedLesson lessonProgressList s =
                  handleStartExploration getLastAccessedLesson
                    (sort_key (\<lambda>lesson. - lp_createdAt lesson) lessonProgressList)
                    (lp_topic m) None (Some True) s
              \<and> handleShowExplanation getLastAccessedLesson lessonProgressList s =
                  (case getLastAccessedLesson (lp_queryId m) of
                     Inl e \<Rightarrow> Inl (e, s\<lparr>currentTopic := lp_topic m\<rparr>)
                   | Inr lastAccessedLesson \<Rightarrow>
                       Inr (s\<lparr>currentTopic := lp_topic m,
                              currentStepIndex := lastAccessedLesson,
                              isUserQuery := True, currentState := Explanation\<rparr>))))"
proof (intro conjI impI)
  assume "lessonProgressList = []"
  with assms show "handleShowExplanation getLastAccessedLesson lessonProgressList s =
      Inr (s\<lparr>currentState := Home\<rparr>)"
    by (simp add: handleShowExplanation_def)
next
  assume ne: "lessonProgressList \<noteq> []"
  define sorted_list where
    "sorted_list = sort_key (\<lambda>lesson. - lp_createdAt lesson) lessonProgressList"
  have "length sorted_list = length lessonProgressList"
    by (simp add: sorted_list_def)
  with ne obtain m others where so: "sorted_list = m # others"
    by (cases sorted_list) auto
  from sort_key_head_least [OF so [unfolded sorted_list_def]]
  have m: "m \<in> set lessonProgressList"
    and latest: "\<forall>l \<in> set lessonProgressList. lp_createdAt l \<le> lp_createdAt m"
    by auto
  have h: "handleShowExplanation getLastAccessedLesson lessonProgressList s =
      handleStartExploration getLastAccessedLesson sorted_list (lp_topic m) None (Some True) s"
    using assms ne so by (simp add: handleShowExplanation_def sorted_list_def [symmetric])
  have r: "handleStartExploration getLastAccessedLesson sorted_list (lp_topic m) None (Some True) s =
      (case getLastAccessedLesson (lp_queryId m) of
         Inl e \<Rightarrow> Inl (e, s\<lparr>currentTopic := lp_topic m\<rparr>)
       | Inr lastAccessedLesson \<Rightarrow>
           Inr (s\<lparr>currentTopic := lp_topic m, currentStepIndex := lastAccessedLesson,
                  isUserQuery := True, currentState := Explanation\<rparr>))"
    by (simp add: handleStartExploration_def so split: sum.splits)
  from m latest h r show "\<exists>m \<in> set lessonProgressList.
      (\<forall>l \<in> set lessonProgressList. lp_createdAt l \<le> lp_createdAt m)
      \<and> handleShowExplanation getLastAccessedLesson lessonProgressList s =
          handleStartExploration getLastAccessedLesson
            (sort_key (\<lambda>lesson. - lp_createdAt lesson) lessonProgressList)
            (lp_topic m) None (Some True) s
      \<and> handleShowExplanation getLastAccessedLesson lessonProgressList s =
          (case getLastAccessedLesson (lp_queryId m) of
             Inl e \<Rightarrow> Inl (e, s\<lparr>currentTopic := lp_topic m\<rparr>)
           | Inr lastAccessedLesson \<Rightarrow>
               Inr (s\<lparr>currentTopic := lp_topic m,
                      currentStepIndex := lastAccessedLesson,
                      isUserQuery := True, currentState := Explanation\<rparr>))"
    unfolding sorted_list_def by (intro bexI [of _ m]) simp_all
qed

theorem show_explanation_without_topic_witness:
  "currentTopic shell0 = []
   \<and> handleShowExplanation lastAccessed0 [] shell0 = Inr (shell0\<lparr>currentState := Home\<rparr>)
   \<and> handleShowExplanation lastAccessed0 lessons0 shell0 =
       Inr (shell0\<lparr>currentTopic := ''photosynthesis'', currentStepIndex := 3,
              isUserQuery := True, currentState := Explanation\<rparr>)"
proof -
  have h: "currentTopic shell0 = []" by (simp add: shell0_def)
  have ne: "lessons0 \<noteq> []" by (simp add: lessons0_def)
  from show_explanation_without_topic [OF h, of "[]" lastAccessed0]
  have a: "handleShowExplanation lastAccessed0 [] shell0 = Inr (shell0\<lparr>currentState := Home\<rparr>)"
    by blast
  from show_explanation_without_topic [OF h, of lessons0 lastAccessed0] ne
  obtain m where m: "m \<in> set lessons0" "\<forall>l \<in> set lessons0. lp_createdAt l \<le> lp_createdAt m"
    and r: "handleShowExplanation lastAccessed0 lessons0 shell0 =
      (case lastAccessed0 (lp_queryId m) of
         Inl e \<Rightarrow> Inl (e, shell0\<lparr>currentTopic := lp_topic m\<rparr>)
       | Inr lastAccessedLesson \<Rightarrow>
           Inr (shell0\<lparr>currentTopic := lp_topic m, currentStepIndex := lastAccessedLesson,
                  isUserQuery := True, currentState := Explanation\<rparr>))"
    by blast
  from m(2) have "1700000500000 \<le> lp_createdAt m"
    by (simp add: lessons0_def)
  with m(1) have "m = \<lparr>lp_topic = ''photosynthesis'', lp_queryId = ''q2'',
      lp_createdAt = 1700000500000\<rparr>"
    by (auto simp: lessons0_def)
  with r have "handleShowExplanation lastAccessed0 lessons0 shell0 =
       Inr (shell0\<lparr>currentTopic := ''photosynthesis'', currentStepIndex := 3,
              isUserQuery := True, currentState := Explanation\<rparr>)"
    by (simp add: lastAccessed0_def)
  with h a show ?thesis by simp
qed

end
